theory Spec2Isabelle
  imports Complex_Main "HOL-Library.Multiset"
begin

section \<open>Data model\<close>

text \<open>
  The records follow \<^verbatim>\<open>lib/supabase.ts\<close> (\<^verbatim>\<open>Player\<close>, \<^verbatim>\<open>RoomPlayer\<close>) and
  \<^verbatim>\<open>components/GameCanvas.tsx\<close> (\<^verbatim>\<open>Collectible\<close>, \<^verbatim>\<open>Position\<close>). A JavaScript
  \<^verbatim>\<open>number\<close> that holds a coordinate is a \<^typ>\<open>real\<close>; one that holds a score, a
  counter or a \<^verbatim>\<open>Date.now()\<close> reading in milliseconds is an \<^typ>\<open>int\<close>. Field names
  that would clash with a HOL constant or keyword carry a prefix.
\<close>

datatype kind = coin | gem | star

record collectible =
  c_id :: "int \<times> nat"
  c_x :: real
  c_y :: real
  c_type :: kind
  c_value :: int
  collected :: bool

record position =
  pos_x :: real
  pos_y :: real

record player =
  p_id :: string
  username :: string
  total_score :: int
  games_played :: int
  wins :: int

record room_player =
  rp_id :: string
  player_id :: string
  position_x :: real
  position_y :: real
  score :: int
  is_ready :: bool

text \<open>The three remote writes of \<^verbatim>\<open>endGame\<close>, as values.\<close>

record game_score =
  gs_room_id :: string
  gs_player_id :: string
  gs_score :: int
  gs_rank :: int
  gs_game_type :: string

record player_stats =
  ps_total_score :: int
  ps_games_played :: int
  ps_wins :: int

datatype remote_write =
    InsertGameScore game_score
  | UpdatePlayer string player_stats
  | UpdateRoomStatus string string

text \<open>
  The state of one mounted \<^verbatim>\<open>GameCanvas\<close>: its four \<^verbatim>\<open>useState\<close> cells, the
  \<^verbatim>\<open>lastUpdateTime\<close> ref, and three logs of what the component sent out: the calls of
  \<^verbatim>\<open>onPositionUpdate\<close> (each with the \<^verbatim>\<open>now\<close> of the frame that made it), the calls of
  \<^verbatim>\<open>onScoreUpdate\<close>, and the writes of every invocation of \<^verbatim>\<open>endGame\<close>.

  \<open>updatePending\<close> is React's side of the state: a state update of the component has been
  scheduled and React has not rendered since. The model writes every update to its cell at
  the call. What the flag decides is when an \<^emph>\<open>updater function\<close> runs: React runs it at the
  call only when no update is pending; otherwise it queues the updater and runs it at the
  next render, after the statements that follow the call.
\<close>

record game =
  collectibles :: "collectible list"
  myPosition :: position
  myScore :: int
  gameTime :: int
  lastUpdateTime :: int
  positionUpdates :: "(int \<times> real \<times> real) list"
  scoreUpdates :: "int list"
  endGameCalls :: "remote_write list list"
  updatePending :: bool

text \<open>
  The bindings that a closure created in one render reads: the props and the
  \<^verbatim>\<open>myScore\<close> of that render.
\<close>

record bindings =
  b_roomId :: string
  b_player :: player
  b_roomPlayers :: "room_player list"
  b_gameType :: string
  b_myScore :: int

section \<open>Collectible field: \<^verbatim>\<open>initializeCollectibles\<close>\<close>

definition types :: "kind list" where
  "types = [coin, coin, coin, gem, gem, star]"

fun values_of :: "kind \<Rightarrow> int" where
  "values_of coin = 10"
| "values_of gem = 25"
| "values_of star = 50"

text \<open>
  \<^verbatim>\<open>types[Math.floor(r * types.length)]\<close> for a reading \<open>r\<close> of \<^verbatim>\<open>Math.random()\<close>.
  An index outside the pool reads \<^verbatim>\<open>undefined\<close> in JavaScript; the model makes that
  case \<open>None\<close>.
\<close>

definition pickType :: "real \<Rightarrow> kind option" where
  "pickType r =
     (let idx = \<lfloor>r * real (length types)\<rfloor>
      in if 0 \<le> idx \<and> idx < int (length types) then Some (types ! nat idx) else None)"

text \<open>
  One iteration of the loop body: \<open>now\<close> is the iteration's \<^verbatim>\<open>Date.now()\<close>, and
  \<open>r\<close>, \<open>rx\<close>, \<open>ry\<close> are its three readings of \<^verbatim>\<open>Math.random()\<close> in program order.
\<close>

definition makeItem :: "int \<Rightarrow> nat \<Rightarrow> real \<Rightarrow> real \<Rightarrow> real \<Rightarrow> collectible option" where
  "makeItem now i r rx ry =
     (case pickType r of
        None \<Rightarrow> None
      | Some type \<Rightarrow>
          Some \<lparr> c_id = (now, i),
                 c_x = rx * 750 + 25,
                 c_y = ry * 550 + 25,
                 c_type = type,
                 c_value = values_of type,
                 collected = False \<rparr>)"

text \<open>
  The loop \<^verbatim>\<open>for (let i = 0; i < 20; i++)\<close>, counting \<open>i\<close> up from \<open>20 - n\<close> with \<open>n\<close>
  iterations left. \<open>clock i\<close> is the \<^verbatim>\<open>Date.now()\<close> of iteration \<open>i\<close> and \<open>rnd k\<close> the
  \<open>k\<close>-th reading of \<^verbatim>\<open>Math.random()\<close>; iteration \<open>i\<close> takes readings \<open>3i\<close>, \<open>3i+1\<close>,
  \<open>3i+2\<close>.
\<close>

fun pushItems :: "(nat \<Rightarrow> int) \<Rightarrow> (nat \<Rightarrow> real) \<Rightarrow> nat \<Rightarrow> nat \<Rightarrow> collectible list option" where
  "pushItems clock rnd i 0 = Some []"
| "pushItems clock rnd i (Suc n) =
     (case makeItem (clock i) i (rnd (3 * i)) (rnd (3 * i + 1)) (rnd (3 * i + 2)) of
        None \<Rightarrow> None
      | Some item \<Rightarrow>
          (case pushItems clock rnd (Suc i) n of
             None \<Rightarrow> None
           | Some items \<Rightarrow> Some (item # items)))"

definition initializeCollectibles :: "(nat \<Rightarrow> int) \<Rightarrow> (nat \<Rightarrow> real) \<Rightarrow> collectible list option" where
  "initializeCollectibles clock rnd = pushItems clock rnd 0 20"

text \<open>The number of pool slots that hold a given kind.\<close>

definition weight :: "kind \<Rightarrow> nat" where
  "weight k = length (filter (\<lambda>t. t = k) types)"

section \<open>Local player simulator: \<^verbatim>\<open>updateGame\<close> and \<^verbatim>\<open>checkCollisions\<close>\<close>

definition playerRadius :: real where
  "playerRadius = 20"

definition speed :: real where
  "speed = 5"

text \<open>
  The callback of \<^verbatim>\<open>prev.map\<close> in \<^verbatim>\<open>checkCollisions\<close>. It assigns to the enclosing
  \<^verbatim>\<open>newScore\<close> and \<^verbatim>\<open>scoreChanged\<close>, which the model threads through as a pair.
\<close>

fun collectItem :: "real \<Rightarrow> real \<Rightarrow> collectible \<Rightarrow> int \<times> bool \<Rightarrow> collectible \<times> int \<times> bool" where
  "collectItem x y item (newScore, scoreChanged) =
     (if collected item then (item, newScore, scoreChanged)
      else
        let dx = c_x item - x;
            dy = c_y item - y;
            distance = sqrt (dx * dx + dy * dy)
        in if distance < playerRadius + 15
           then (item\<lparr>collected := True\<rparr>, newScore + c_value item, True)
           else (item, newScore, scoreChanged))"

fun mapItems :: "real \<Rightarrow> real \<Rightarrow> collectible list \<Rightarrow> int \<times> bool \<Rightarrow> collectible list \<times> int \<times> bool" where
  "mapItems x y [] acc = ([], acc)"
| "mapItems x y (item # rest) acc =
     (case collectItem x y item acc of
        (item', acc') \<Rightarrow>
          (case mapItems x y rest acc' of
             (rest', acc'') \<Rightarrow> (item' # rest', acc'')))"

text \<open>
  \<^verbatim>\<open>checkCollisions\<close>. The \<^verbatim>\<open>map\<close> callback runs inside the updater passed to
  \<^verbatim>\<open>setCollectibles\<close> (line 538), and line 556 reads \<^verbatim>\<open>scoreChanged\<close> and
  \<^verbatim>\<open>newScore\<close> right after that call.
  \<^item> When an update is pending (after \<^verbatim>\<open>setMyPosition\<close> on line 523 in the same frame,
    after \<^verbatim>\<open>setCollectibles(items)\<close> at mount, after any earlier callback that React has
    not rendered yet), the updater is queued: line 556 still reads \<^verbatim>\<open>false\<close> and the old
    score, so nothing is scored and \<^verbatim>\<open>onScoreUpdate\<close> is not called. The updater runs
    at the next render and flags the items; its assignments to \<^verbatim>\<open>newScore\<close> and
    \<^verbatim>\<open>scoreChanged\<close> come too late to be read.
  \<^item> When no update is pending, the updater runs at the call and line 556 reads what the
    callback assigned.
  Either way the list gets the flags (queued updaters run in order, each on the list the
  previous one left), and the call leaves an update pending: \<^verbatim>\<open>map\<close> makes a new array.
\<close>

definition checkCollisions :: "real \<Rightarrow> real \<Rightarrow> game \<Rightarrow> game" where
  "checkCollisions x y g =
     (case mapItems x y (collectibles g) (myScore g, False) of
        (items, ranScore, ranChanged) \<Rightarrow>
          let queued = updatePending g;
              scoreChanged = (if queued then False else ranChanged);
              newScore = (if queued then myScore g else ranScore);
              g1 = g\<lparr>collectibles := items, updatePending := True\<rparr>
          in if scoreChanged \<and> newScore \<noteq> myScore g
             then g1\<lparr>myScore := newScore, scoreUpdates := scoreUpdates g1 @ [newScore]\<rparr>
             else g1)"

text \<open>Lines 511 to 517: the candidate position before clamping.\<close>

definition up :: "string set \<Rightarrow> bool" where
  "up keysPressed = (''arrowup'' \<in> keysPressed \<or> ''w'' \<in> keysPressed)"

definition down :: "string set \<Rightarrow> bool" where
  "down keysPressed = (''arrowdown'' \<in> keysPressed \<or> ''s'' \<in> keysPressed)"

definition left :: "string set \<Rightarrow> bool" where
  "left keysPressed = (''arrowleft'' \<in> keysPressed \<or> ''a'' \<in> keysPressed)"

definition right :: "string set \<Rightarrow> bool" where
  "right keysPressed = (''arrowright'' \<in> keysPressed \<or> ''d'' \<in> keysPressed)"

definition candidateY :: "string set \<Rightarrow> real \<Rightarrow> real" where
  "candidateY keysPressed y0 =
     (let newY = y0;
          newY = (if up keysPressed then newY - speed else newY);
          newY = (if down keysPressed then newY + speed else newY)
      in newY)"

definition candidateX :: "string set \<Rightarrow> real \<Rightarrow> real" where
  "candidateX keysPressed x0 =
     (let newX = x0;
          newX = (if left keysPressed then newX - speed else newX);
          newX = (if right keysPressed then newX + speed else newX)
      in newX)"

text \<open>
  \<^verbatim>\<open>updateGame\<close> for a frame whose \<^verbatim>\<open>Date.now()\<close> is \<open>now\<close> and whose
  \<^verbatim>\<open>keysPressed.current\<close> is \<open>keysPressed\<close>. \<^verbatim>\<open>setMyPosition\<close> gets a new object,
  so it always leaves an update pending.
\<close>

definition updateGame :: "int \<Rightarrow> string set \<Rightarrow> game \<Rightarrow> game" where
  "updateGame now keysPressed g =
     (if now - lastUpdateTime g < 16 then g
      else
        let newX = candidateX keysPressed (pos_x (myPosition g));
            newY = candidateY keysPressed (pos_y (myPosition g));
            newX = max 20 (min 780 newX);
            newY = max 20 (min 580 newY);
            g1 = (if newX \<noteq> pos_x (myPosition g) \<or> newY \<noteq> pos_y (myPosition g)
                  then
                    let g' = g\<lparr>myPosition := \<lparr>pos_x = newX, pos_y = newY\<rparr>,
                               updatePending := True\<rparr>
                    in if now - lastUpdateTime g > 50
                       then g'\<lparr>positionUpdates := positionUpdates g' @ [(now, newX, newY)],
                                lastUpdateTime := now\<rparr>
                       else g'
                  else g)
        in checkCollisions newX newY g1)"

section \<open>Renderer: the collectible loop of \<^verbatim>\<open>renderGame\<close>\<close>

datatype shape = Disc | Hexagon | Star5

fun shape_of :: "kind \<Rightarrow> shape" where
  "shape_of coin = Disc"
| "shape_of gem = Hexagon"
| "shape_of star = Star5"

text \<open>What the \<^verbatim>\<open>forEach\<close> over \<^verbatim>\<open>collectibles\<close> draws, in order: a shape at a point.\<close>

fun drawCollectibles :: "collectible list \<Rightarrow> (shape \<times> real \<times> real) list" where
  "drawCollectibles [] = []"
| "drawCollectibles (item # rest) =
     (if collected item then drawCollectibles rest
      else (shape_of (c_type item), c_x item, c_y item) # drawCollectibles rest)"

section \<open>Session finalizer: \<^verbatim>\<open>endGame\<close>\<close>

text \<open>The score the comparator reads for a participant.\<close>

definition scoreOf :: "bindings \<Rightarrow> room_player \<Rightarrow> int" where
  "scoreOf b a = (if player_id a = p_id (b_player b) then b_myScore b else score a)"

text \<open>The comparator \<^verbatim>\<open>(a, b) => scoreB - scoreA\<close>.\<close>

definition compareFn :: "bindings \<Rightarrow> room_player \<Rightarrow> room_player \<Rightarrow> int" where
  "compareFn b a c = scoreOf b c - scoreOf b a"

text \<open>
  \<^verbatim>\<open>Array.prototype.sort\<close> with a comparator is a stable sort (ECMAScript 2019): \<open>a\<close>
  comes before \<open>c\<close> when the comparator is negative, and elements that compare equal keep
  their order. Insertion from the right, placing an element before the first one it does
  not have to follow, computes that order.
\<close>

fun insertBy :: "('a \<Rightarrow> 'a \<Rightarrow> int) \<Rightarrow> 'a \<Rightarrow> 'a list \<Rightarrow> 'a list" where
  "insertBy cmp a [] = [a]"
| "insertBy cmp a (c # cs) = (if cmp a c \<le> 0 then a # c # cs else c # insertBy cmp a cs)"

definition sortBy :: "('a \<Rightarrow> 'a \<Rightarrow> int) \<Rightarrow> 'a list \<Rightarrow> 'a list" where
  "sortBy cmp xs = foldr (insertBy cmp) xs []"

text \<open>\<^verbatim>\<open>Array.prototype.findIndex\<close>: the first index whose element satisfies \<open>P\<close>, or \<open>-1\<close>.\<close>

fun findIndex :: "('a \<Rightarrow> bool) \<Rightarrow> 'a list \<Rightarrow> int" where
  "findIndex P [] = - 1"
| "findIndex P (a # as) =
     (if P a then 0 else (let r = findIndex P as in if r = - 1 then - 1 else r + 1))"

text \<open>The test \<^verbatim>\<open>rp.player_id === player.id\<close>.\<close>

definition isMe :: "bindings \<Rightarrow> room_player \<Rightarrow> bool" where
  "isMe b rp = (player_id rp = p_id (b_player b))"

definition sortedPlayers :: "bindings \<Rightarrow> room_player list" where
  "sortedPlayers b = sortBy (compareFn b) (b_roomPlayers b)"

definition myRank :: "bindings \<Rightarrow> int" where
  "myRank b = findIndex (isMe b) (sortedPlayers b) + 1"

definition playerUpdate :: "bindings \<Rightarrow> player_stats" where
  "playerUpdate b =
     (let isWinner = (myRank b = 1)
      in \<lparr> ps_total_score = total_score (b_player b) + b_myScore b,
            ps_games_played = games_played (b_player b) + 1,
            ps_wins = (if isWinner then wins (b_player b) + 1 else wins (b_player b)) \<rparr>)"

text \<open>
  \<^verbatim>\<open>endGame\<close>: the three awaited writes in program order. A write that fails returns
  an error object that the source ignores, so the next write is attempted all the same.
\<close>

definition endGame :: "bindings \<Rightarrow> remote_write list" where
  "endGame b =
     [ InsertGameScore \<lparr> gs_room_id = b_roomId b,
                         gs_player_id = p_id (b_player b),
                         gs_score = b_myScore b,
                         gs_rank = myRank b,
                         gs_game_type = b_gameType b \<rparr>,
       UpdatePlayer (p_id (b_player b)) (playerUpdate b),
       UpdateRoomStatus (b_roomId b) ''finished'' ]"

section \<open>Session clock: the \<^verbatim>\<open>setInterval\<close> callback\<close>

text \<open>
  One firing of the interval: the updater given to \<^verbatim>\<open>setGameTime\<close>, applied to the
  current \<^verbatim>\<open>gameTime\<close>. \<open>b\<close> holds the bindings of the \<^verbatim>\<open>endGame\<close> closure that the
  callback calls. The interval is set up once, by the effect that runs at mount (its
  dependency list is empty), so \<open>b\<close> is the same at every firing of a session. The call
  of \<^verbatim>\<open>setGameTime\<close> leaves an update pending unless nothing was pending and the new time
  is the old one.
\<close>

definition timerTick :: "bindings \<Rightarrow> game \<Rightarrow> game" where
  "timerTick b g =
     (let prev = gameTime g
      in if prev \<le> 1
         then g\<lparr>gameTime := 0, endGameCalls := endGameCalls g @ [endGame b],
                updatePending := (updatePending g \<or> prev \<noteq> 0)\<rparr>
         else g\<lparr>gameTime := prev - 1, updatePending := True\<rparr>)"

text \<open>
  React renders the component: the queued updates are applied and none is pending any
  more. The cells of the model are up to date already, so only the flag changes.
\<close>

definition render :: "game \<Rightarrow> game" where
  "render g = g\<lparr>updatePending := False\<rparr>"

text \<open>
  The bindings of the first render: the props that the component is mounted with and the
  initial \<^verbatim>\<open>myScore\<close> of \<^verbatim>\<open>useState(0)\<close>. The effect that sets the interval up has the
  dependency list \<^verbatim>\<open>[]\<close> (line 446), so it runs once, after the first render, and the
  \<^verbatim>\<open>endGame\<close> that the interval callback calls is the closure of that render: it reads
  these bindings at every firing, whatever the props and the score are by then.
\<close>

definition firstRender :: "string \<Rightarrow> player \<Rightarrow> room_player list \<Rightarrow> string \<Rightarrow> bindings" where
  "firstRender roomId player roomPlayers gameType =
     \<lparr> b_roomId = roomId, b_player = player, b_roomPlayers = roomPlayers,
       b_gameType = gameType, b_myScore = 0 \<rparr>"

text \<open>
  The remote store's side of a write to the \<^verbatim>\<open>players\<close> table:
  \<^verbatim>\<open>update({total_score, games_played, wins}).eq('id', player.id)\<close> sets the three columns
  of the row with that id. The other two writes leave the table alone.
\<close>

fun applyWrite :: "remote_write \<Rightarrow> player \<Rightarrow> player" where
  "applyWrite (UpdatePlayer pid stats) row =
     (if p_id row = pid
      then row\<lparr>total_score := ps_total_score stats, games_played := ps_games_played stats,
               wins := ps_wins stats\<rparr>
      else row)"
| "applyWrite (InsertGameScore gs) row = row"
| "applyWrite (UpdateRoomStatus rid status) row = row"

fun applyWrites :: "remote_write list \<Rightarrow> player \<Rightarrow> player" where
  "applyWrites [] row = row"
| "applyWrites (w # ws) row = applyWrites ws (applyWrite w row)"

section \<open>Sessions\<close>

text \<open>
  The component is driven by callbacks on one event queue: animation frames (each reads
  \<^verbatim>\<open>Date.now()\<close> and the key set, and runs \<^verbatim>\<open>updateGame\<close>), firings of the one-second
  interval, and React's renders.
\<close>

datatype event = Frame int "string set" | Timer | Render

fun step :: "bindings \<Rightarrow> game \<Rightarrow> event \<Rightarrow> game" where
  "step b g (Frame now keysPressed) = updateGame now keysPressed g"
| "step b g Timer = timerTick b g"
| "step b g Render = render g"

fun run :: "bindings \<Rightarrow> game \<Rightarrow> event list \<Rightarrow> game" where
  "run b g [] = g"
| "run b g (e # es) = run b (step b g e) es"

text \<open>
  The state after mounting, for the field \<open>items\<close> that \<^verbatim>\<open>initializeCollectibles\<close> set.
  Its \<^verbatim>\<open>setCollectibles(items)\<close> (line 503) is still pending when the effects have run:
  the first frame, which the second effect runs itself (line 475), comes before React
  renders.
\<close>

definition mount :: "collectible list \<Rightarrow> game" where
  "mount items =
     \<lparr> collectibles = items,
       myPosition = \<lparr>pos_x = 400, pos_y = 300\<rparr>,
       myScore = 0,
       gameTime = 60,
       lastUpdateTime = 0,
       positionUpdates = [],
       scoreUpdates = [],
       endGameCalls = [],
       updatePending = True \<rparr>"

definition inArena :: "position \<Rightarrow> bool" where
  "inArena p = (20 \<le> pos_x p \<and> pos_x p \<le> 780 \<and> 20 \<le> pos_y p \<and> pos_y p \<le> 580)"

text \<open>Consecutive entries of a list of push times are more than 50 ms apart.\<close>

fun spaced :: "int list \<Rightarrow> bool" where
  "spaced (t1 # t2 # ts) = (t2 - t1 > 50 \<and> spaced (t2 # ts))"
| "spaced ts = True"

definition pushTimes :: "game \<Rightarrow> int list" where
  "pushTimes g = map fst (positionUpdates g)"

text \<open>
  The throttle's invariant: the pushes so far are spaced, and \<^verbatim>\<open>lastUpdateTime\<close> is
  the time of the latest one.
\<close>

definition throttled :: "game \<Rightarrow> bool" where
  "throttled g =
     (spaced (pushTimes g) \<and> (pushTimes g = [] \<or> last (pushTimes g) = lastUpdateTime g))"

text \<open>The number of interval firings among a list of events.\<close>

definition timers :: "event list \<Rightarrow> nat" where
  "timers es = length (filter (\<lambda>e. e = Timer) es)"

text \<open>
  The items that a collision check at \<open>(x, y)\<close> collects: those not yet collected whose
  centre is closer than the two radii together.
\<close>

definition hit :: "real \<Rightarrow> real \<Rightarrow> collectible \<Rightarrow> bool" where
  "hit x y item =
     (\<not> collected item \<and>
      sqrt ((c_x item - x) * (c_x item - x) + (c_y item - y) * (c_y item - y))
        < playerRadius + 15)"

text \<open>The sum of the point values of the items whose \<^verbatim>\<open>collected\<close> flag is set.\<close>

definition collectedValue :: "collectible list \<Rightarrow> int" where
  "collectedValue items = sum_list (map c_value (filter collected items))"

text \<open>A list with its \<open>i\<close>-th element taken out.\<close>

definition without :: "nat \<Rightarrow> 'a list \<Rightarrow> 'a list" where
  "without i xs = take i xs @ drop (Suc i) xs"

text \<open>No uncollected item is within reach of the player's position.\<close>

definition settled :: "game \<Rightarrow> bool" where
  "settled g =
     (filter (hit (pos_x (myPosition g)) (pos_y (myPosition g))) (collectibles g) = [])"

text \<open>The same game with item \<open>i\<close> taken off the field.\<close>

definition shadow :: "nat \<Rightarrow> game \<Rightarrow> game" where
  "shadow i g = g\<lparr>collectibles := without i (collectibles g)\<rparr>"

text \<open>A two-player room used as the concrete session in the examples below.\<close>

definition alice :: player where
  "alice = \<lparr> p_id = ''alice'', username = ''Alice'', total_score = 120, games_played = 3, wins = 1 \<rparr>"

definition seat :: "string \<Rightarrow> int \<Rightarrow> room_player" where
  "seat pid sc =
     \<lparr> rp_id = pid, player_id = pid, position_x = 400, position_y = 300, score = sc,
       is_ready = True \<rparr>"

definition room2 :: bindings where
  "room2 =
     \<lparr> b_roomId = ''room'', b_player = alice, b_roomPlayers = [seat ''bob'' 0, seat ''alice'' 0],
       b_gameType = ''collector'', b_myScore = 0 \<rparr>"

text \<open>Two items for the examples: a coin where the player starts and a gem 40 units away.\<close>

definition coinHere :: collectible where
  "coinHere = \<lparr> c_id = (0, 0), c_x = 400, c_y = 300, c_type = coin, c_value = 10, collected = False \<rparr>"

definition gemAhead :: collectible where
  "gemAhead = \<lparr> c_id = (0, 1), c_x = 440, c_y = 300, c_type = gem, c_value = 25, collected = False \<rparr>"

section \<open>Basic facts about one frame\<close>

lemma myPosition_checkCollisions [simp]:
  "myPosition (checkCollisions x y g) = myPosition g"
  by (simp add: checkCollisions_def Let_def split: prod.splits)

lemma updateGame_skipped: "now - lastUpdateTime g < 16 \<Longrightarrow> updateGame now keysPressed g = g"
  by (simp add: updateGame_def)

lemma myPosition_updateGame:
  "\<not> now - lastUpdateTime g < 16 \<Longrightarrow>
   myPosition (updateGame now keysPressed g) =
     \<lparr> pos_x = max 20 (min 780 (candidateX keysPressed (pos_x (myPosition g)))),
       pos_y = max 20 (min 580 (candidateY keysPressed (pos_y (myPosition g)))) \<rparr>"
  by (simp add: updateGame_def Let_def)

lemma myPosition_timerTick [simp]: "myPosition (timerTick b g) = myPosition g"
  by (simp add: timerTick_def Let_def)

lemma inArena_step: "inArena (myPosition g) \<Longrightarrow> inArena (myPosition (step b g e))"
proof (cases e)
  case (Frame now keysPressed)
  assume inv: "inArena (myPosition g)"
  show ?thesis
  proof (cases "now - lastUpdateTime g < 16")
    case True
    with inv Frame show ?thesis by (simp add: updateGame_skipped)
  next
    case False
    with Frame show ?thesis by (simp add: myPosition_updateGame inArena_def)
  qed
next
  case Timer
  assume "inArena (myPosition g)"
  with Timer show ?thesis by simp
next
  case Render
  assume "inArena (myPosition g)"
  with Render show ?thesis by (simp add: render_def)
qed

lemma inArena_run: "inArena (myPosition g) \<Longrightarrow> inArena (myPosition (run b g es))"
  by (induction es arbitrary: g) (simp_all add: inArena_step)

text \<open>The equations that evaluate a frame on a concrete state.\<close>

lemmas frame_eval =
  updateGame_def checkCollisions_def mount_def candidateX_def candidateY_def
  up_def down_def left_def right_def speed_def Let_def inArena_def pushTimes_def render_def

section \<open>Clamp invariant\<close>

text \<open>
  Claim C2. Whatever frames and timer firings a session sees, and whatever keys are held
  at each frame, the local position after every event lies in \<open>[20, 780] \<times> [20, 580]\<close>;
  and every frame that passes the time gate leaves the position there, from any state.
\<close>

theorem position_stays_in_arena:
  "inArena (myPosition (run b (mount items) es)) \<and>
   (now - lastUpdateTime g \<ge> 16 \<longrightarrow> inArena (myPosition (updateGame now keysPressed g)))"
proof
  have "inArena (myPosition (mount items))"
    by (simp add: mount_def inArena_def)
  then show "inArena (myPosition (run b (mount items) es))"
    by (rule inArena_run)
next
  show "now - lastUpdateTime g \<ge> 16 \<longrightarrow> inArena (myPosition (updateGame now keysPressed g))"
    by (simp add: myPosition_updateGame inArena_def)
qed

theorem position_stays_in_arena_witness:
  "inArena (myPosition (run room2 (mount [])
      [Frame 1000 {''a''}, Timer, Frame 1016 {''a'', ''w''}])) \<and>
   myPosition (run room2 (mount []) [Frame 1000 {''a''}, Timer, Frame 1016 {''a'', ''w''}])
     = \<lparr>pos_x = 390, pos_y = 295\<rparr> \<and>
   1000 - lastUpdateTime ((mount [])\<lparr>myPosition := \<lparr>pos_x = 780, pos_y = 578\<rparr>\<rparr>) \<ge> 16 \<and>
   myPosition (updateGame 1000 {''d'', ''s''}
      ((mount [])\<lparr>myPosition := \<lparr>pos_x = 780, pos_y = 578\<rparr>\<rparr>))
     = \<lparr>pos_x = 780, pos_y = 580\<rparr>"
  using position_stays_in_arena [of room2 "[]"
      "[Frame 1000 {''a''}, Timer, Frame 1016 {''a'', ''w''}]"
      1000 "(mount [])\<lparr>myPosition := \<lparr>pos_x = 780, pos_y = 578\<rparr>\<rparr>" "{''d'', ''s''}"]
  by (simp add: frame_eval timerTick_def)

section \<open>Throttle of outbound position pushes\<close>

lemma spaced_snoc:
  "spaced (ts @ [t]) = (spaced ts \<and> (ts = [] \<or> t - last ts > 50))"
  by (induction ts rule: spaced.induct) auto

lemma spaced_nth: "spaced ts \<Longrightarrow> Suc i < length ts \<Longrightarrow> ts ! Suc i - ts ! i > 50"
proof (induction ts arbitrary: i rule: spaced.induct)
  case (1 t1 t2 ts)
  then show ?case by (cases i) auto
qed simp_all

lemma log_checkCollisions [simp]:
  "positionUpdates (checkCollisions x y g) = positionUpdates g"
  "lastUpdateTime (checkCollisions x y g) = lastUpdateTime g"
  by (simp_all add: checkCollisions_def Let_def split: prod.splits)

lemma throttled_updateGame: "throttled g \<Longrightarrow> throttled (updateGame now keysPressed g)"
  by (auto simp: throttled_def pushTimes_def updateGame_def Let_def spaced_snoc last_map)

lemma throttled_timerTick: "throttled g \<Longrightarrow> throttled (timerTick b g)"
  by (simp add: throttled_def pushTimes_def timerTick_def Let_def)

lemma throttled_run: "throttled g \<Longrightarrow> throttled (run b g es)"
proof (induction es arbitrary: g)
  case Nil
  then show ?case by simp
next
  case (Cons e es)
  have "throttled (step b g e)"
    using Cons.prems
    by (cases e)
      (simp_all add: throttled_updateGame throttled_timerTick, simp add: throttled_def pushTimes_def render_def)
  then show ?case using Cons.IH by simp
qed

text \<open>
  Claim C5. In every session, whatever keys are held at each frame, any two consecutive
  calls of \<^verbatim>\<open>onPositionUpdate\<close> are made by frames whose clock readings are more than
  50 ms apart.
\<close>

theorem position_pushes_throttled:
  "Suc i < length (pushTimes (run b (mount items) es)) \<Longrightarrow>
   pushTimes (run b (mount items) es) ! Suc i - pushTimes (run b (mount items) es) ! i > 50"
proof -
  have "throttled (mount items)"
    by (simp add: throttled_def pushTimes_def mount_def)
  then have "spaced (pushTimes (run b (mount items) es))"
    using throttled_run [of "mount items" b es] by (simp add: throttled_def)
  then show "Suc i < length (pushTimes (run b (mount items) es)) \<Longrightarrow> ?thesis"
    by (rule spaced_nth)
qed

theorem position_pushes_throttled_witness:
  "pushTimes (run room2 (mount [])
      [Frame 1000 {''d''}, Frame 1016 {''d''}, Frame 1033 {''d''}, Frame 1050 {''d''},
       Frame 1051 {''d''}])
     = [1000, 1051] \<and> (1051::int) - 1000 > 50"
  using position_pushes_throttled [of 0 room2 "[]"
      "[Frame 1000 {''d''}, Frame 1016 {''d''}, Frame 1033 {''d''}, Frame 1050 {''d''},
        Frame 1051 {''d''}]"]
  by (simp add: frame_eval)

section \<open>Movement step\<close>

text \<open>
  Claim C6. In a frame that passes the time gate and whose candidate position needs no
  clamping: with exactly one vertical and exactly one horizontal direction held, the
  position moves 5 units on each axis, a displacement of length \<open>5 * sqrt 2\<close>; with a
  single direction held it moves 5 units on that axis and none on the other.
\<close>

theorem movement_step:
  assumes gate: "\<not> now - lastUpdateTime g < 16"
    and free: "inArena \<lparr> pos_x = candidateX keysPressed (pos_x (myPosition g)),
                          pos_y = candidateY keysPressed (pos_y (myPosition g)) \<rparr>"
  defines "dx \<equiv> pos_x (myPosition (updateGame now keysPressed g)) - pos_x (myPosition g)"
    and "dy \<equiv> pos_y (myPosition (updateGame now keysPressed g)) - pos_y (myPosition g)"
  shows "(up keysPressed \<noteq> down keysPressed \<and> left keysPressed \<noteq> right keysPressed \<longrightarrow>
            dx = (if right keysPressed then 5 else - 5) \<and>
            dy = (if down keysPressed then 5 else - 5) \<and>
            sqrt (dx * dx + dy * dy) = 5 * sqrt 2) \<and>
         (up keysPressed \<noteq> down keysPressed \<and> \<not> left keysPressed \<and> \<not> right keysPressed \<longrightarrow>
            dx = 0 \<and> dy = (if down keysPressed then 5 else - 5) \<and>
            sqrt (dx * dx + dy * dy) = 5) \<and>
         (left keysPressed \<noteq> right keysPressed \<and> \<not> up keysPressed \<and> \<not> down keysPressed \<longrightarrow>
            dx = (if right keysPressed then 5 else - 5) \<and> dy = 0 \<and>
            sqrt (dx * dx + dy * dy) = 5)"
proof -
  have x: "dx = candidateX keysPressed (pos_x (myPosition g)) - pos_x (myPosition g)"
    using gate free by (simp add: dx_def myPosition_updateGame inArena_def)
  have y: "dy = candidateY keysPressed (pos_y (myPosition g)) - pos_y (myPosition g)"
    using gate free by (simp add: dy_def myPosition_updateGame inArena_def)
  have diag: "sqrt (50::real) = 5 * sqrt 2"
    using real_sqrt_mult [of 25 2] by simp
  show ?thesis
    unfolding x y by (auto simp: candidateX_def candidateY_def speed_def diag)
qed

theorem movement_step_witness:
  "\<not> 1000 - lastUpdateTime (mount []) < 16 \<and>
   inArena \<lparr> pos_x = candidateX {''w'', ''d''} (pos_x (myPosition (mount []))),
             pos_y = candidateY {''w'', ''d''} (pos_y (myPosition (mount []))) \<rparr> \<and>
   myPosition (updateGame 1000 {''w'', ''d''} (mount [])) = \<lparr>pos_x = 405, pos_y = 295\<rparr> \<and>
   sqrt (5 * 5 + (- 5) * (- 5)) = 5 * sqrt 2"
proof -
  have gate: "\<not> 1000 - lastUpdateTime (mount []) < 16"
    by (simp add: mount_def)
  have free: "inArena \<lparr> pos_x = candidateX {''w'', ''d''} (pos_x (myPosition (mount []))),
                        pos_y = candidateY {''w'', ''d''} (pos_y (myPosition (mount []))) \<rparr>"
    by (simp add: frame_eval)
  show ?thesis
    using gate free movement_step [OF gate free]
    by (simp add: frame_eval)
qed

section \<open>Collision check\<close>

text \<open>
  The fold of the \<^verbatim>\<open>map\<close> callback, in closed form: the items hit are flagged, their
  values are added, and the flag \<^verbatim>\<open>scoreChanged\<close> is set when there is one.
\<close>

lemma collectItem_eq:
  "collectItem x y item (s, ch) =
     (if hit x y item then (item\<lparr>collected := True\<rparr>, s + c_value item, True) else (item, s, ch))"
  by (simp add: hit_def Let_def)

lemma mapItems_eq:
  "mapItems x y items (s, ch) =
     (map (\<lambda>item. if hit x y item then item\<lparr>collected := True\<rparr> else item) items,
      s + sum_list (map c_value (filter (hit x y) items)),
      ch \<or> filter (hit x y) items \<noteq> [])"
proof (induction items arbitrary: s ch)
  case Nil
  show ?case by simp
next
  case (Cons item rest)
  show ?case
    by (simp only: mapItems.simps collectItem_eq) (simp add: Cons.IH)
qed

lemma checkCollisions_eq:
  "checkCollisions x y g =
     g\<lparr> collectibles := map (\<lambda>item. if hit x y item then item\<lparr>collected := True\<rparr> else item)
                           (collectibles g),
        updatePending := True,
        myScore :=
          (if updatePending g then myScore g
           else myScore g + sum_list (map c_value (filter (hit x y) (collectibles g)))),
        scoreUpdates :=
          (if \<not> updatePending g \<and> sum_list (map c_value (filter (hit x y) (collectibles g))) \<noteq> 0
           then scoreUpdates g @ [myScore g + sum_list (map c_value (filter (hit x y) (collectibles g)))]
           else scoreUpdates g) \<rparr>"
proof -
  have empty: "filter (hit x y) (collectibles g) = [] \<Longrightarrow>
      sum_list (map c_value (filter (hit x y) (collectibles g))) = 0"
    by simp
  show ?thesis
    unfolding checkCollisions_def mapItems_eq using empty by (cases g) (auto simp: Let_def)
qed

lemma collectedValue_collect:
  "collectedValue (map (\<lambda>item. if hit x y item then item\<lparr>collected := True\<rparr> else item) items)
     = collectedValue items + sum_list (map c_value (filter (hit x y) items))"
  by (induction items) (auto simp: collectedValue_def hit_def)

lemma collectedValue_checkCollisions:
  "collectedValue (collectibles (checkCollisions x y g)) =
     collectedValue (collectibles g) + sum_list (map c_value (filter (hit x y) (collectibles g)))"
  by (simp add: checkCollisions_eq collectedValue_collect)

text \<open>With an update pending the check scores nothing; with none it scores what it flags.\<close>

lemma checkCollisions_queued:
  "updatePending g \<Longrightarrow>
   myScore (checkCollisions x y g) = myScore g \<and>
   scoreUpdates (checkCollisions x y g) = scoreUpdates g"
  by (simp add: checkCollisions_eq)

lemma checkCollisions_eager:
  "\<not> updatePending g \<Longrightarrow>
   myScore (checkCollisions x y g) =
     myScore g + sum_list (map c_value (filter (hit x y) (collectibles g)))"
  by (simp add: checkCollisions_eq)

text \<open>What a frame that passes the gate does to the field and, when the check is queued,
  to the score.\<close>

lemma updateGame_flags:
  assumes "\<not> now - lastUpdateTime g < 16"
  shows "collectedValue (collectibles (updateGame now keysPressed g)) =
           collectedValue (collectibles g) + sum_list (map c_value (filter
             (hit (pos_x (myPosition (updateGame now keysPressed g)))
                  (pos_y (myPosition (updateGame now keysPressed g)))) (collectibles g)))"
  using assms by (simp add: updateGame_def Let_def collectedValue_checkCollisions)

lemma updateGame_queued:
  assumes "\<not> now - lastUpdateTime g < 16"
    and "updatePending g \<or> myPosition (updateGame now keysPressed g) \<noteq> myPosition g"
  shows "myScore (updateGame now keysPressed g) = myScore g"
    and "scoreUpdates (updateGame now keysPressed g) = scoreUpdates g"
proof -
  define x where "x = max 20 (min 780 (candidateX keysPressed (pos_x (myPosition g))))"
  define y where "y = max 20 (min 580 (candidateY keysPressed (pos_y (myPosition g))))"
  have pos: "myPosition (updateGame now keysPressed g) = \<lparr>pos_x = x, pos_y = y\<rparr>"
    using assms(1) by (simp add: myPosition_updateGame x_def y_def)
  have "myScore (updateGame now keysPressed g) = myScore g \<and>
        scoreUpdates (updateGame now keysPressed g) = scoreUpdates g"
  proof (cases "x \<noteq> pos_x (myPosition g) \<or> y \<noteq> pos_y (myPosition g)")
    case True
    then show ?thesis
      using assms(1)
      by (simp add: updateGame_def Let_def x_def [symmetric] y_def [symmetric] checkCollisions_queued)
  next
    case False
    then have "\<lparr>pos_x = x, pos_y = y\<rparr> = myPosition g" by simp
    with assms(2) pos have "updatePending g" by simp
    with False show ?thesis
      using assms(1)
      by (simp add: updateGame_def Let_def x_def [symmetric] y_def [symmetric] checkCollisions_queued)
  qed
  then show "myScore (updateGame now keysPressed g) = myScore g"
    and "scoreUpdates (updateGame now keysPressed g) = scoreUpdates g"
    by simp_all
qed

lemma updatePending_updateGame:
  "\<not> now - lastUpdateTime g < 16 \<Longrightarrow> updatePending (updateGame now keysPressed g)"
  by (simp add: updateGame_def Let_def checkCollisions_eq)

text \<open>
  The distance test without the square root, which also makes the collision check
  executable.
\<close>

lemma hit_iff [code]:
  "hit x y item =
     (\<not> collected item \<and>
      (c_x item - x) * (c_x item - x) + (c_y item - y) * (c_y item - y) < 1225)"
proof -
  have root: "sqrt 1225 = 35"
    using real_sqrt_abs2 [of 35] by simp
  show ?thesis
    using real_sqrt_less_iff [of "(c_x item - x) * (c_x item - x) + (c_y item - y) * (c_y item - y)" 1225]
    by (simp add: hit_def playerRadius_def root)
qed

lemma collectItem_code [code]:
  "collectItem x y item (newScore, scoreChanged) =
     (if collected item then (item, newScore, scoreChanged)
      else
        let dx = c_x item - x;
            dy = c_y item - y
        in if dx * dx + dy * dy < 1225
           then (item\<lparr>collected := True\<rparr>, newScore + c_value item, True)
           else (item, newScore, scoreChanged))"
  by (simp only: collectItem_eq) (simp add: hit_iff Let_def)

section \<open>Session clock\<close>

lemma clock_updateGame [simp]:
  "gameTime (updateGame now keysPressed g) = gameTime g"
  "endGameCalls (updateGame now keysPressed g) = endGameCalls g"
  by (simp_all add: updateGame_def checkCollisions_def Let_def split: prod.splits)

lemma endGameCalls_run:
  "0 \<le> gameTime g \<Longrightarrow>
   length (endGameCalls (run b g es)) =
     length (endGameCalls g) + (timers es - (nat (gameTime g) - 1))"
proof (induction es arbitrary: g)
  case Nil
  then show ?case by (simp add: timers_def)
next
  case (Cons e es)
  show ?case
  proof (cases e)
    case (Frame now keysPressed)
    then show ?thesis using Cons.IH [of "updateGame now keysPressed g"] Cons.prems
      by (simp add: timers_def)
  next
    case Timer
    show ?thesis
    proof (cases "gameTime g \<le> 1")
      case True
      then have "nat (gameTime g) - 1 = 0" by simp
      moreover have "length (endGameCalls (run b (timerTick b g) es)) =
          Suc (length (endGameCalls g)) + timers es"
        using Cons.IH [of "timerTick b g"] True by (simp add: timerTick_def Let_def)
      ultimately show ?thesis using Timer by (simp add: timers_def)
    next
      case False
      then have "length (endGameCalls (run b (timerTick b g) es)) =
          length (endGameCalls g) + (timers es - (nat (gameTime g - 1) - 1))"
        using Cons.IH [of "timerTick b g"] by (simp add: timerTick_def Let_def)
      moreover have "Suc (timers es) - (nat (gameTime g) - 1) = timers es - (nat (gameTime g - 1) - 1)"
        using False by (simp add: nat_diff_distrib)
      ultimately show ?thesis using Timer by (simp add: timers_def)
    qed
  next
    case Render
    then show ?thesis using Cons.IH [of "render g"] Cons.prems
      by (simp add: timers_def render_def)
  qed
qed

text \<open>
  Claim C1 asks for exactly one invocation of \<^verbatim>\<open>endGame\<close> per session. The interval
  callback tests the level \<open>prev \<le> 1\<close>, it returns 0, and the interval is cleared only
  when the component unmounts. So \<^verbatim>\<open>endGame\<close> is invoked by the 60th firing and again
  by every later one: after any events from mounting, the number of invocations is the
  number of interval firings beyond the first 59.
\<close>

theorem endGame_runs_on_every_late_tick:
  "length (endGameCalls (run b (mount items) es)) = timers es - 59"
  using endGameCalls_run [of "mount items" b es] by (simp add: mount_def)

theorem endGame_runs_on_every_late_tick_witness:
  "endGameCalls (run room2 (mount []) (replicate 61 Timer)) = [endGame room2, endGame room2]"
  using endGame_runs_on_every_late_tick [of room2 "[]" "replicate 61 Timer"]
  by (simp add: eval_nat_numeral timerTick_def mount_def Let_def)

text \<open>
  Every invocation of \<^verbatim>\<open>endGame\<close> in a session writes the same three values, those
  computed from the bindings \<open>b\<close> of the closure that the interval callback holds; the
  events of the session do not enter.
\<close>

lemma endGameCalls_step:
  "set (endGameCalls (step b g e)) \<subseteq> insert (endGame b) (set (endGameCalls g))"
  by (cases e) (auto simp: timerTick_def render_def Let_def)

lemma endGameCalls_fixed_bindings:
  "set (endGameCalls g) \<subseteq> {endGame b} \<Longrightarrow> set (endGameCalls (run b g es)) \<subseteq> {endGame b}"
proof (induction es arbitrary: g)
  case Nil
  then show ?case by simp
next
  case (Cons e es)
  from endGameCalls_step [of b g e] Cons.prems
  have "set (endGameCalls (step b g e)) \<subseteq> {endGame b}" by auto
  then show ?case using Cons.IH by simp
qed

lemma endGame_reads_fixed_bindings:
  "set (endGameCalls (run b (mount items) es)) \<subseteq> {endGame b}"
  by (rule endGameCalls_fixed_bindings) (simp add: mount_def)

section \<open>Time gate of the simulation\<close>

text \<open>
  Claim C9 asks for at least 16 ms between two frames that update the state. The gate
  compares \<open>now\<close> with \<^verbatim>\<open>lastUpdateTime\<close>, and only a position push assigns
  \<^verbatim>\<open>lastUpdateTime\<close>. So a frame that passes the gate and pushes nothing leaves the
  gate open: every later frame updates the state as well, however soon it arrives.
\<close>

theorem gate_measures_from_last_push:
  assumes "\<not> t1 - lastUpdateTime g < 16" and "t1 - lastUpdateTime g \<le> 50" and "t1 \<le> t2"
  shows "lastUpdateTime (updateGame t1 k1 g) = lastUpdateTime g \<and>
         myPosition (updateGame t2 k2 (updateGame t1 k1 g)) =
           \<lparr> pos_x = max 20 (min 780 (candidateX k2 (pos_x (myPosition (updateGame t1 k1 g))))),
             pos_y = max 20 (min 580 (candidateY k2 (pos_y (myPosition (updateGame t1 k1 g))))) \<rparr>"
proof -
  have same: "lastUpdateTime (updateGame t1 k1 g) = lastUpdateTime g"
    using assms(1,2) by (simp add: updateGame_def Let_def)
  then have "\<not> t2 - lastUpdateTime (updateGame t1 k1 g) < 16"
    using assms(1,3) by simp
  then show ?thesis
    using same by (simp add: myPosition_updateGame)
qed

theorem gate_measures_from_last_push_witness:
  "run room2 (mount []) [Frame 1000 {''d''}, Frame 1007 {''d''}, Frame 1014 {''d''}]
     = (mount []) \<lparr> myPosition := \<lparr>pos_x = 405, pos_y = 300\<rparr>, lastUpdateTime := 1000,
                    positionUpdates := [(1000, 405, 300)] \<rparr> \<and>
   myPosition (run room2 (mount [])
     [Frame 1000 {''d''}, Frame 1007 {''d''}, Frame 1014 {''d''}, Frame 1021 {''d''}])
     = \<lparr>pos_x = 410, pos_y = 300\<rparr> \<and>
   myPosition (run room2 (mount [])
     [Frame 1000 {''d''}, Frame 1007 {''d''}, Frame 1014 {''d''}, Frame 1021 {''d''},
      Frame 1028 {''d''}])
     = \<lparr>pos_x = 415, pos_y = 300\<rparr> \<and>
   (1028::int) - 1021 < 16"
  using gate_measures_from_last_push [of 1021
      "run room2 (mount []) [Frame 1000 {''d''}, Frame 1007 {''d''}, Frame 1014 {''d''}]"
      1028 "{''d''}" "{''d''}"]
  by (simp add: frame_eval)

section \<open>Collectible field generation\<close>

lemma pickType_interval:
  assumes "0 \<le> r" and "r < 1"
  shows "pickType r = Some (if r < 1 / 2 then coin else if r < 5 / 6 then gem else star)"
proof -
  define i where "i = \<lfloor>r * 6\<rfloor>"
  have lo: "0 \<le> i" using assms by (simp add: i_def)
  have hi: "i < 6" using assms by (simp add: i_def floor_less_iff)
  have b1: "of_int i \<le> r * 6" by (simp add: i_def)
  have b2: "r * 6 < of_int i + 1" unfolding i_def by linarith
  have pick: "pickType r = Some (types ! nat i)"
    using lo hi by (simp add: pickType_def types_def i_def)
  from lo hi consider "i = 0" | "i = 1" | "i = 2" | "i = 3" | "i = 4" | "i = 5"
    by linarith
  then show ?thesis
  proof cases
    case 1 with b1 b2 pick show ?thesis by (simp add: types_def)
  next
    case 2 with b1 b2 pick show ?thesis by (simp add: types_def)
  next
    case 3 with b1 b2 pick show ?thesis by (simp add: types_def)
  next
    case 4 with b1 b2 pick show ?thesis by (simp add: types_def)
  next
    case 5 with b1 b2 pick show ?thesis by (simp add: types_def)
  next
    case 6 with b1 b2 pick show ?thesis by (simp add: types_def)
  qed
qed

lemma pushItems_spec:
  assumes "\<forall>k. 0 \<le> rnd k \<and> rnd k < 1"
  shows "\<exists>items. pushItems clock rnd i n = Some items \<and> length items = n \<and>
           (\<forall>j<n. pickType (rnd (3 * (i + j))) = Some (c_type (items ! j)) \<and>
                   c_value (items ! j) = values_of (c_type (items ! j)) \<and>
                   \<not> collected (items ! j) \<and>
                   c_id (items ! j) = (clock (i + j), i + j) \<and>
                   c_x (items ! j) = rnd (3 * (i + j) + 1) * 750 + 25 \<and>
                   c_y (items ! j) = rnd (3 * (i + j) + 2) * 550 + 25)"
proof (induction n arbitrary: i)
  case 0
  then show ?case by simp
next
  case (Suc n)
  from assms have "0 \<le> rnd (3 * i)" "rnd (3 * i) < 1" by simp_all
  then obtain t where t: "pickType (rnd (3 * i)) = Some t"
    using pickType_interval by blast
  from Suc.IH [of "Suc i"] obtain items where
    items: "pushItems clock rnd (Suc i) n = Some items" "length items = n"
    and rest: "\<forall>j<n. pickType (rnd (3 * (Suc i + j))) = Some (c_type (items ! j)) \<and>
                   c_value (items ! j) = values_of (c_type (items ! j)) \<and>
                   \<not> collected (items ! j) \<and>
                   c_id (items ! j) = (clock (Suc i + j), Suc i + j) \<and>
                   c_x (items ! j) = rnd (3 * (Suc i + j) + 1) * 750 + 25 \<and>
                   c_y (items ! j) = rnd (3 * (Suc i + j) + 2) * 550 + 25"
    by blast
  have shifted: "\<forall>j<n. pickType (rnd (3 * (i + Suc j))) = Some (c_type (items ! j)) \<and>
                   c_value (items ! j) = values_of (c_type (items ! j)) \<and>
                   \<not> collected (items ! j) \<and>
                   c_id (items ! j) = (clock (i + Suc j), i + Suc j) \<and>
                   c_x (items ! j) = rnd (3 * (i + Suc j) + 1) * 750 + 25 \<and>
                   c_y (items ! j) = rnd (3 * (i + Suc j) + 2) * 550 + 25"
    using rest by (simp only: add_Suc_shift)
  define item where "item =
      \<lparr> c_id = (clock i, i), c_x = rnd (3 * i + 1) * 750 + 25, c_y = rnd (3 * i + 2) * 550 + 25,
        c_type = t, c_value = values_of t, collected = False \<rparr>"
  have item: "makeItem (clock i) i (rnd (3 * i)) (rnd (3 * i + 1)) (rnd (3 * i + 2)) = Some item"
    using t by (simp add: makeItem_def item_def)
  have first: "c_type item = t" "c_value item = values_of t" "\<not> collected item"
      "c_id item = (clock i, i)" "c_x item = rnd (3 * i + 1) * 750 + 25"
      "c_y item = rnd (3 * i + 2) * 550 + 25"
    by (simp_all add: item_def)
  have run: "pushItems clock rnd i (Suc n) = Some (item # items)"
    using item items by simp
  have "pickType (rnd (3 * (i + j))) = Some (c_type ((item # items) ! j)) \<and>
        c_value ((item # items) ! j) = values_of (c_type ((item # items) ! j)) \<and>
        \<not> collected ((item # items) ! j) \<and>
        c_id ((item # items) ! j) = (clock (i + j), i + j) \<and>
        c_x ((item # items) ! j) = rnd (3 * (i + j) + 1) * 750 + 25 \<and>
        c_y ((item # items) ! j) = rnd (3 * (i + j) + 2) * 550 + 25" if "j < Suc n" for j
  proof (cases j)
    case 0
    then show ?thesis using t first by simp
  next
    case (Suc j')
    then have "j' < n" using that by simp
    then show ?thesis using shifted Suc by simp
  qed
  then show ?case
    using run items(2) by simp
qed


lemma weights: "weight coin = 3" "weight gem = 2" "weight star = 1"
  by (simp_all add: weight_def types_def)

text \<open>
  Claim C4, amended. For readings of \<^verbatim>\<open>Math.random()\<close> in \<open>[0, 1)\<close>, the field has
  exactly 20 items; item \<open>i\<close> takes its kind from its own reading \<open>3i\<close> alone, its value
  is the value of its kind, and it starts uncollected. A reading below \<open>1/2\<close> gives a
  coin, one in \<open>[1/2, 5/6)\<close> a gem and one from \<open>5/6\<close> on a star: the pool holds three
  coins, two gems and one star, so a coin is one and a half times as likely as a gem and
  three times as likely as a star.
\<close>

theorem field_generation:
  assumes "\<forall>k. 0 \<le> rnd k \<and> rnd k < 1"
  shows "(\<exists>items. initializeCollectibles clock rnd = Some items \<and> length items = 20 \<and>
            (\<forall>i<20. pickType (rnd (3 * i)) = Some (c_type (items ! i)) \<and>
                     c_value (items ! i) = values_of (c_type (items ! i)) \<and>
                     \<not> collected (items ! i))) \<and>
         (\<forall>r. 0 \<le> r \<and> r < 1 \<longrightarrow>
              pickType r = Some (if r < 1 / 2 then coin else if r < 5 / 6 then gem else star)) \<and>
         weight coin = 3 \<and> weight gem = 2 \<and> weight star = 1"
proof -
  from pushItems_spec [OF assms, of clock 0 20]
  obtain items where "pushItems clock rnd 0 20 = Some items" and "length items = 20"
    and "\<forall>i<20. pickType (rnd (3 * i)) = Some (c_type (items ! i)) \<and>
                 c_value (items ! i) = values_of (c_type (items ! i)) \<and>
                 \<not> collected (items ! i)"
    by auto
  then have "\<exists>items. initializeCollectibles clock rnd = Some items \<and> length items = 20 \<and>
            (\<forall>i<20. pickType (rnd (3 * i)) = Some (c_type (items ! i)) \<and>
                     c_value (items ! i) = values_of (c_type (items ! i)) \<and>
                     \<not> collected (items ! i))"
    unfolding initializeCollectibles_def by blast
  then show ?thesis
    by (simp add: pickType_interval weights)
qed

theorem field_generation_witness:
  "(\<forall>k. 0 \<le> real (k mod 10) / 10 \<and> real (k mod 10) / 10 < 1) \<and>
   (\<exists>items. initializeCollectibles (\<lambda>i. 1000) (\<lambda>k. real (k mod 10) / 10) = Some items \<and>
      length items = 20 \<and>
      c_type (items ! 0) = coin \<and> c_type (items ! 2) = gem \<and> c_type (items ! 3) = star \<and>
      c_value (items ! 3) = 50 \<and> \<not> collected (items ! 19))"
proof -
  have draws: "\<forall>k. 0 \<le> real (k mod 10) / 10 \<and> real (k mod 10) / 10 < 1"
    by simp
  from field_generation [OF draws, of "\<lambda>i. 1000"]
  obtain items where
    items: "initializeCollectibles (\<lambda>i. 1000) (\<lambda>k. real (k mod 10) / 10) = Some items"
      "length items = 20"
    and each: "\<forall>i<20. pickType (real (3 * i mod 10) / 10) = Some (c_type (items ! i)) \<and>
                     c_value (items ! i) = values_of (c_type (items ! i)) \<and>
                     \<not> collected (items ! i)"
    by blast
  have p0: "pickType (real (3 * 0 mod 10) / 10) = Some coin"
    and p2: "pickType (real (3 * 2 mod 10) / 10) = Some gem"
    and p3: "pickType (real (3 * 3 mod 10) / 10) = Some star"
    by (simp_all add: pickType_interval)
  have "pickType (real (3 * 0 mod 10) / 10) = Some (c_type (items ! 0))"
    and "pickType (real (3 * 2 mod 10) / 10) = Some (c_type (items ! 2))"
    and "pickType (real (3 * 3 mod 10) / 10) = Some (c_type (items ! 3))"
    and "c_value (items ! 3) = values_of (c_type (items ! 3))"
    and "\<not> collected (items ! 19)"
    using each [rule_format, of 0] each [rule_format, of 2] each [rule_format, of 3]
      each [rule_format, of 19]
    by simp_all
  with p0 p2 p3 have "c_type (items ! 0) = coin \<and> c_type (items ! 2) = gem \<and>
      c_type (items ! 3) = star \<and> c_value (items ! 3) = 50 \<and> \<not> collected (items ! 19)"
    by simp
  with draws items show ?thesis by blast
qed

text \<open>
  The weights are not 3 : 1 : 1. Two of the six pool slots hold a gem (the readings
  \<open>7/12\<close> and \<open>9/12\<close> fall into one each), so the coin's weight is not three times the
  gem's.
\<close>

theorem pool_weights_counterexample:
  "types = [coin, coin, coin, gem, gem, star] \<and>
   pickType (7 / 12) = Some gem \<and> pickType (9 / 12) = Some gem \<and>
   weight coin = 3 \<and> weight gem = 2 \<and> weight star = 1 \<and>
   \<not> (weight coin = 3 * weight gem \<and> weight coin = 3 * weight star)"
  by (simp add: weight_def types_def pickType_interval)

section \<open>Collected items are inert\<close>

lemma without_map: "without i (map f xs) = map f (without i xs)"
  by (simp add: without_def take_map drop_map)

lemma filter_without:
  assumes "i < length xs" and "\<not> P (xs ! i)"
  shows "filter P (without i xs) = filter P xs"
proof -
  have "xs = take i xs @ xs ! i # drop (Suc i) xs"
    using assms(1) by (rule id_take_nth_drop)
  then have "filter P xs = filter P (take i xs @ xs ! i # drop (Suc i) xs)"
    by simp
  also have "\<dots> = filter P (take i xs) @ filter P (drop (Suc i) xs)"
    using assms(2) by simp
  finally show ?thesis by (simp add: without_def)
qed

lemma drawCollectibles_filter:
  "drawCollectibles items =
     map (\<lambda>item. (shape_of (c_type item), c_x item, c_y item))
       (filter (\<lambda>item. \<not> collected item) items)"
  by (induction items) simp_all

lemma collected_not_hit: "collected item \<Longrightarrow> \<not> hit x y item"
  by (simp add: hit_def)

lemma checkCollisions_shadow:
  assumes "i < length (collectibles g)" and "collected (collectibles g ! i)"
  shows "checkCollisions x y (shadow i g) = shadow i (checkCollisions x y g)"
    and "collectibles (checkCollisions x y g) ! i = collectibles g ! i"
    and "length (collectibles (checkCollisions x y g)) = length (collectibles g)"
proof -
  have inert: "\<not> hit x y (collectibles g ! i)"
    using assms(2) by (rule collected_not_hit)
  have same: "filter (hit x y) (without i (collectibles g)) = filter (hit x y) (collectibles g)"
    using assms(1) inert by (rule filter_without)
  show "checkCollisions x y (shadow i g) = shadow i (checkCollisions x y g)"
    using same by (cases g) (simp add: checkCollisions_eq shadow_def without_map)
  show "collectibles (checkCollisions x y g) ! i = collectibles g ! i"
    using assms(1) inert by (simp add: checkCollisions_eq)
  show "length (collectibles (checkCollisions x y g)) = length (collectibles g)"
    by (simp add: checkCollisions_eq)
qed

lemma step_shadow:
  assumes "i < length (collectibles g)" and "collected (collectibles g ! i)"
  shows "step b (shadow i g) e = shadow i (step b g e)"
    and "collectibles (step b g e) ! i = collectibles g ! i"
    and "length (collectibles (step b g e)) = length (collectibles g)"
proof -
  have frame: "updateGame now keysPressed (shadow i g) = shadow i (updateGame now keysPressed g) \<and>
      collectibles (updateGame now keysPressed g) ! i = collectibles g ! i \<and>
      length (collectibles (updateGame now keysPressed g)) = length (collectibles g)"
    for now keysPressed
  proof (cases "now - lastUpdateTime g < 16")
    case True
    then show ?thesis by (simp add: updateGame_def shadow_def)
  next
    case False
    define x where "x = max 20 (min 780 (candidateX keysPressed (pos_x (myPosition g))))"
    define y where "y = max 20 (min 580 (candidateY keysPressed (pos_y (myPosition g))))"
    define g1 where "g1 =
      (if x \<noteq> pos_x (myPosition g) \<or> y \<noteq> pos_y (myPosition g)
       then
         let g' = g\<lparr>myPosition := \<lparr>pos_x = x, pos_y = y\<rparr>, updatePending := True\<rparr>
         in if now - lastUpdateTime g > 50
            then g'\<lparr>positionUpdates := positionUpdates g' @ [(now, x, y)], lastUpdateTime := now\<rparr>
            else g'
       else g)"
    have u: "updateGame now keysPressed g = checkCollisions x y g1"
      using False by (simp add: updateGame_def Let_def x_def y_def g1_def)
    have us: "updateGame now keysPressed (shadow i g) = checkCollisions x y (shadow i g1)"
      using False by (cases g) (simp add: updateGame_def Let_def x_def y_def g1_def shadow_def)
    have cs: "collectibles g1 = collectibles g"
      by (simp add: g1_def Let_def)
    from checkCollisions_shadow [of i g1 x y] assms cs u us show ?thesis by simp
  qed
  have timer: "timerTick b (shadow i g) = shadow i (timerTick b g)"
    by (cases g) (simp add: timerTick_def shadow_def Let_def)
  have rendered: "render (shadow i g) = shadow i (render g)"
    by (cases g) (simp add: render_def shadow_def)
  show "step b (shadow i g) e = shadow i (step b g e)"
    using frame timer rendered by (cases e) simp_all
  show "collectibles (step b g e) ! i = collectibles g ! i"
    using frame by (cases e) (simp_all add: timerTick_def render_def Let_def)
  show "length (collectibles (step b g e)) = length (collectibles g)"
    using frame by (cases e) (simp_all add: timerTick_def render_def Let_def)
qed

lemma run_shadow:
  assumes "i < length (collectibles g)" and "collected (collectibles g ! i)"
  shows "run b (shadow i g) es = shadow i (run b g es) \<and>
         collectibles (run b g es) ! i = collectibles g ! i \<and>
         length (collectibles (run b g es)) = length (collectibles g)"
  using assms
proof (induction es arbitrary: g)
  case Nil
  show ?case by simp
next
  case (Cons e es)
  from step_shadow [OF Cons.prems, of b e] Cons.prems
  have "i < length (collectibles (step b g e))" and "collected (collectibles (step b g e) ! i)"
    by simp_all
  from Cons.IH [OF this] step_shadow [OF Cons.prems, of b e] show ?case by simp
qed

text \<open>
  Claim C3. Take an item whose \<^verbatim>\<open>collected\<close> flag is set. Through any later events the
  item stays as it is, flag included; the score and the score pushes are those of the same
  game with the item taken off the field, so no collision check adds its value again,
  however often the player is within collision distance; and the collectible loop of the
  renderer draws what it would draw without the item.
\<close>

theorem collected_item_is_inert:
  assumes "i < length (collectibles g)" and "collected (collectibles g ! i)"
  shows "collectibles (run b g es) ! i = collectibles g ! i \<and>
         myScore (run b g es) = myScore (run b (shadow i g) es) \<and>
         scoreUpdates (run b g es) = scoreUpdates (run b (shadow i g) es) \<and>
         drawCollectibles (collectibles (run b g es)) =
           drawCollectibles (collectibles (run b (shadow i g) es))"
proof -
  from run_shadow [OF assms, of b es]
  have sh: "run b (shadow i g) es = shadow i (run b g es)"
    and keep: "collectibles (run b g es) ! i = collectibles g ! i"
    and len: "length (collectibles (run b g es)) = length (collectibles g)"
    by simp_all
  have "\<not> \<not> collected (collectibles (run b g es) ! i)"
    using keep assms(2) by simp
  with len assms(1)
  have "filter (\<lambda>item. \<not> collected item) (without i (collectibles (run b g es))) =
        filter (\<lambda>item. \<not> collected item) (collectibles (run b g es))"
    by (intro filter_without) simp_all
  then have "drawCollectibles (collectibles (run b g es)) =
      drawCollectibles (collectibles (shadow i (run b g es)))"
    by (simp add: drawCollectibles_filter shadow_def)
  with sh keep show ?thesis by (simp add: shadow_def)
qed

text \<open>
  A session: the first frame flags the coin under the player; then the player walks
  right, staying within reach of the coin, until the gem is within reach and is flagged
  too. Every one of these checks is queued, so the score stays 0.
\<close>

lemmas check_eval =
  updateGame_def checkCollisions_eq hit_iff mount_def candidateX_def candidateY_def
  up_def down_def left_def right_def speed_def Let_def render_def coinHere_def gemAhead_def

theorem collected_item_is_inert_witness:
  "0 < length (collectibles (run room2 (mount [coinHere, gemAhead]) [Frame 1000 {}])) \<and>
   collected (collectibles (run room2 (mount [coinHere, gemAhead]) [Frame 1000 {}]) ! 0) \<and>
   collectibles (run room2 (run room2 (mount [coinHere, gemAhead]) [Frame 1000 {}])
      [Render, Frame 1016 {''d''}, Render, Frame 1033 {''d''}])
     = [coinHere\<lparr>collected := True\<rparr>, gemAhead\<lparr>collected := True\<rparr>] \<and>
   myPosition (run room2 (run room2 (mount [coinHere, gemAhead]) [Frame 1000 {}])
      [Render, Frame 1016 {''d''}, Render, Frame 1033 {''d''}])
     = \<lparr>pos_x = 410, pos_y = 300\<rparr> \<and>
   myScore (run room2 (run room2 (mount [coinHere, gemAhead]) [Frame 1000 {}])
      [Render, Frame 1016 {''d''}, Render, Frame 1033 {''d''}]) = 0 \<and>
   scoreUpdates (run room2 (run room2 (mount [coinHere, gemAhead]) [Frame 1000 {}])
      [Render, Frame 1016 {''d''}, Render, Frame 1033 {''d''}]) = [] \<and>
   myScore (run room2 (shadow 0 (run room2 (mount [coinHere, gemAhead]) [Frame 1000 {}]))
      [Render, Frame 1016 {''d''}, Render, Frame 1033 {''d''}]) = 0 \<and>
   drawCollectibles (collectibles
     (run room2 (shadow 0 (run room2 (mount [coinHere, gemAhead]) [Frame 1000 {}]))
      [Render, Frame 1016 {''d''}, Render, Frame 1033 {''d''}])) = []"
proof -
  let ?g = "run room2 (mount [coinHere, gemAhead]) [Frame 1000 {}]"
  let ?es = "[Render, Frame 1016 {''d''}, Render, Frame 1033 {''d''}]"
  have first: "?g = mount [coinHere\<lparr>collected := True\<rparr>, gemAhead]"
    by (simp add: check_eval)
  have there: "0 < length (collectibles ?g)"
    by (simp only: first) (simp add: mount_def)
  have flag: "collected (collectibles ?g ! 0)"
    by (simp only: first) (simp add: mount_def)
  have "run room2 (mount [coinHere\<lparr>collected := True\<rparr>, gemAhead]) [Render, Frame 1016 {''d''}] =
      (mount [coinHere\<lparr>collected := True\<rparr>, gemAhead])
        \<lparr>myPosition := \<lparr>pos_x = 405, pos_y = 300\<rparr>, lastUpdateTime := 1016,
         positionUpdates := [(1016, 405, 300)]\<rparr>"
    by (simp add: check_eval)
  moreover have "run room2 ((mount [coinHere\<lparr>collected := True\<rparr>, gemAhead])
        \<lparr>myPosition := \<lparr>pos_x = 405, pos_y = 300\<rparr>, lastUpdateTime := 1016,
         positionUpdates := [(1016, 405, 300)]\<rparr>) [Render, Frame 1033 {''d''}] =
      (mount [coinHere\<lparr>collected := True\<rparr>, gemAhead\<lparr>collected := True\<rparr>])
        \<lparr>myPosition := \<lparr>pos_x = 410, pos_y = 300\<rparr>, lastUpdateTime := 1016,
         positionUpdates := [(1016, 405, 300)]\<rparr>"
    by (simp add: check_eval)
  ultimately have last: "run room2 ?g ?es =
      (mount [coinHere\<lparr>collected := True\<rparr>, gemAhead\<lparr>collected := True\<rparr>])
        \<lparr>myPosition := \<lparr>pos_x = 410, pos_y = 300\<rparr>, lastUpdateTime := 1016,
         positionUpdates := [(1016, 405, 300)]\<rparr>"
    by (simp only: first) simp
  have all: "collectibles (run room2 ?g ?es) =
        [coinHere\<lparr>collected := True\<rparr>, gemAhead\<lparr>collected := True\<rparr>]"
    and pos: "myPosition (run room2 ?g ?es) = \<lparr>pos_x = 410, pos_y = 300\<rparr>"
    and score: "myScore (run room2 ?g ?es) = 0"
    and pushes: "scoreUpdates (run room2 ?g ?es) = []"
    and drawn: "drawCollectibles (collectibles (run room2 ?g ?es)) = []"
    by (simp_all only: last) (simp_all add: mount_def coinHere_def gemAhead_def)
  from collected_item_is_inert [OF there flag, of room2 ?es]
  have "myScore (run room2 (shadow 0 ?g) ?es) = myScore (run room2 ?g ?es)"
    and "drawCollectibles (collectibles (run room2 (shadow 0 ?g) ?es)) =
         drawCollectibles (collectibles (run room2 ?g ?es))"
    by simp_all
  with there flag all pos score pushes drawn show ?thesis
    by (simp only:)
qed

section \<open>Scoring\<close>

text \<open>
  A frame that passes the gate leaves no uncollected item within reach of the position it
  ends at: the check flags them all, queued or not.
\<close>

lemma flagged_not_hit:
  "filter (hit x y) (map (\<lambda>item. if hit x y item then item\<lparr>collected := True\<rparr> else item) items) = []"
  by (induction items) (simp_all add: hit_def)

lemma settled_updateGame:
  assumes "\<not> now - lastUpdateTime g < 16"
  shows "settled (updateGame now keysPressed g)"
proof -
  define x where "x = max 20 (min 780 (candidateX keysPressed (pos_x (myPosition g))))"
  define y where "y = max 20 (min 580 (candidateY keysPressed (pos_y (myPosition g))))"
  have pos: "myPosition (updateGame now keysPressed g) = \<lparr>pos_x = x, pos_y = y\<rparr>"
    using assms by (simp add: myPosition_updateGame x_def y_def)
  have "collectibles (updateGame now keysPressed g) =
      map (\<lambda>item. if hit x y item then item\<lparr>collected := True\<rparr> else item) (collectibles g)"
    using assms
    by (simp add: updateGame_def Let_def x_def [symmetric] y_def [symmetric] checkCollisions_eq)
  then show ?thesis
    by (simp add: settled_def pos flagged_not_hit)
qed

lemma score_updateGame_settled:
  assumes "settled g"
  shows "myScore (updateGame now keysPressed g) = myScore g \<and>
         scoreUpdates (updateGame now keysPressed g) = scoreUpdates g"
proof (cases "now - lastUpdateTime g < 16")
  case True
  then show ?thesis by (simp add: updateGame_skipped)
next
  case False
  show ?thesis
  proof (cases "updatePending g \<or> myPosition (updateGame now keysPressed g) \<noteq> myPosition g")
    case True
    with False show ?thesis by (simp add: updateGame_queued)
  next
    case stay: False
    then have pos: "myPosition (updateGame now keysPressed g) = myPosition g"
      and eager: "\<not> updatePending g"
      by simp_all
    from pos False
    have eq: "\<lparr> pos_x = max 20 (min 780 (candidateX keysPressed (pos_x (myPosition g)))),
                pos_y = max 20 (min 580 (candidateY keysPressed (pos_y (myPosition g)))) \<rparr>
              = myPosition g"
      by (simp add: myPosition_updateGame)
    have same: "max 20 (min 780 (candidateX keysPressed (pos_x (myPosition g)))) = pos_x (myPosition g)"
      "max 20 (min 580 (candidateY keysPressed (pos_y (myPosition g)))) = pos_y (myPosition g)"
      using arg_cong [OF eq, of pos_x] arg_cong [OF eq, of pos_y] by simp_all
    have u: "updateGame now keysPressed g =
        checkCollisions (pos_x (myPosition g)) (pos_y (myPosition g)) g"
      using False same by (simp add: updateGame_def Let_def)
    from assms show ?thesis
      by (simp add: u checkCollisions_eq settled_def)
  qed
qed

lemma settled_step:
  assumes "settled g"
  shows "settled (step b g e) \<and> myScore (step b g e) = myScore g \<and>
         scoreUpdates (step b g e) = scoreUpdates g"
proof (cases e)
  case (Frame now keysPressed)
  have "settled (updateGame now keysPressed g)"
  proof (cases "now - lastUpdateTime g < 16")
    case True
    with assms show ?thesis by (simp add: updateGame_skipped)
  next
    case False
    then show ?thesis by (rule settled_updateGame)
  qed
  with score_updateGame_settled [OF assms, of now keysPressed] Frame show ?thesis by simp
next
  case Timer
  with assms show ?thesis by (simp add: settled_def timerTick_def Let_def)
next
  case Render
  with assms show ?thesis by (simp add: settled_def render_def)
qed

lemma settled_run:
  "settled g \<Longrightarrow>
   myScore (run b g es) = myScore g \<and> scoreUpdates (run b g es) = scoreUpdates g"
proof (induction es arbitrary: g)
  case Nil
  show ?case by simp
next
  case (Cons e es)
  from settled_step [OF Cons.prems, of b e] Cons.IH [of "step b g e"] show ?case by simp
qed

text \<open>
  Claim C10 asks that the score be the sum of the values of the collected items. The
  second effect runs the first frame itself, while \<^verbatim>\<open>setCollectibles(items)\<close> is still
  pending, so that frame's check is queued: it flags the items within reach and scores
  nothing. After it no uncollected item is within reach of the player; an item comes
  within reach only in a frame that moves the player, and that frame's check is queued
  behind \<^verbatim>\<open>setMyPosition\<close>. So in every session the score stays 0 and
  \<^verbatim>\<open>onScoreUpdate\<close> is never called, while the collected value grows with every item
  flagged.
\<close>

theorem session_never_scores:
  fixes now :: int and keysPressed :: "string set" and items :: "collectible list"
  assumes "16 \<le> now"
  defines "g1 \<equiv> updateGame now keysPressed (mount items)"
  shows "myScore (run b (mount items) (Frame now keysPressed # es)) = 0 \<and>
         scoreUpdates (run b (mount items) (Frame now keysPressed # es)) = [] \<and>
         collectedValue (collectibles g1) =
           collectedValue items +
           sum_list (map c_value
             (filter (hit (pos_x (myPosition g1)) (pos_y (myPosition g1))) items))"
proof -
  have gate: "\<not> now - lastUpdateTime (mount items) < 16"
    using assms(1) by (simp add: mount_def)
  have pending: "updatePending (mount items)"
    by (simp add: mount_def)
  have first: "myScore g1 = 0" "scoreUpdates g1 = []"
    using updateGame_queued [OF gate, of keysPressed] pending
    by (simp_all add: g1_def mount_def)
  have "settled g1"
    unfolding g1_def using gate by (rule settled_updateGame)
  from settled_run [OF this, of b es] first
  have "myScore (run b (mount items) (Frame now keysPressed # es)) = 0 \<and>
        scoreUpdates (run b (mount items) (Frame now keysPressed # es)) = []"
    by (simp add: g1_def)
  moreover have "collectedValue (collectibles g1) =
           collectedValue items +
           sum_list (map c_value
             (filter (hit (pos_x (myPosition g1)) (pos_y (myPosition g1))) items))"
    using updateGame_flags [OF gate, of keysPressed] by (simp add: g1_def mount_def)
  ultimately show ?thesis by simp
qed

text \<open>
  A concrete field: when every reading of \<^verbatim>\<open>Math.random()\<close> is \<open>1/2\<close>, all 20 items
  are gems at \<open>(400, 300)\<close>, where the player starts. The first frame flags them all, a
  collected value of 500, and the score is 0.
\<close>

lemma centre_field_exists:
  "\<exists>items. initializeCollectibles (\<lambda>i. 1000) (\<lambda>k. 1 / 2) = Some items"
proof -
  have "\<forall>k. 0 \<le> (\<lambda>k. 1 / 2 :: real) k \<and> (\<lambda>k. 1 / 2 :: real) k < 1"
    by simp
  from pushItems_spec [OF this, of "\<lambda>i. 1000" 0 20] show ?thesis
    unfolding initializeCollectibles_def by auto
qed

lemma centre_field:
  assumes "initializeCollectibles (\<lambda>i. 1000) (\<lambda>k. 1 / 2) = Some items"
  shows "length items = 20"
    and "filter (hit 400 300) items = items"
    and "sum_list (map c_value items) = 500"
    and "collectedValue items = 0"
proof -
  have draws: "\<forall>k. 0 \<le> (\<lambda>k. 1 / 2 :: real) k \<and> (\<lambda>k. 1 / 2 :: real) k < 1"
    by simp
  from pushItems_spec [OF draws, of "\<lambda>i. 1000" 0 20] assms
  have len: "length items = 20"
    and each: "\<forall>j<length items. pickType (1 / 2) = Some (c_type (items ! j)) \<and>
        c_value (items ! j) = values_of (c_type (items ! j)) \<and> \<not> collected (items ! j) \<and>
        c_x (items ! j) = 400 \<and> c_y (items ! j) = 300"
    unfolding initializeCollectibles_def by auto
  have gem: "pickType (1 / 2) = Some gem"
    by (simp add: pickType_interval)
  from each gem have "\<forall>j<length items. c_value (items ! j) = 25 \<and> hit 400 300 (items ! j)"
    by (auto simp: hit_iff)
  then have every: "\<forall>item\<in>set items. c_value item = 25 \<and> hit 400 300 item"
    by (simp add: all_set_conv_all_nth)
  from every have "map c_value items = map (\<lambda>_. 25) items"
    by simp
  then show "sum_list (map c_value items) = 500"
    using len by (simp add: map_replicate_const sum_list_replicate)
  from every show "filter (hit 400 300) items = items"
    by simp
  from every have "\<forall>item\<in>set items. \<not> collected item"
    by (simp add: hit_def)
  then have "filter collected items = []"
    by (simp add: filter_empty_conv)
  then show "collectedValue items = 0"
    by (simp add: collectedValue_def)
  from len show "length items = 20" .
qed

theorem session_never_scores_witness:
  "\<exists>items. initializeCollectibles (\<lambda>i. 1000) (\<lambda>k. 1 / 2) = Some items \<and>
      length items = 20 \<and> (16::int) \<le> 1000 \<and>
      myPosition (updateGame 1000 {} (mount items)) = \<lparr>pos_x = 400, pos_y = 300\<rparr> \<and>
      collectedValue (collectibles (updateGame 1000 {} (mount items))) = 500 \<and>
      myScore (run room2 (mount items) [Frame 1000 {}, Render, Frame 1016 {''d''}]) = 0 \<and>
      scoreUpdates (run room2 (mount items) [Frame 1000 {}, Render, Frame 1016 {''d''}]) = []"
proof -
  from centre_field_exists
  obtain items where init: "initializeCollectibles (\<lambda>i. 1000) (\<lambda>k. 1 / 2) = Some items"
    by blast
  have late: "(16::int) \<le> 1000"
    by simp
  have pos: "myPosition (updateGame 1000 {} (mount items)) = \<lparr>pos_x = 400, pos_y = 300\<rparr>"
    by (simp add: myPosition_updateGame mount_def candidateX_def candidateY_def up_def down_def
        left_def right_def)
  from session_never_scores [OF late, of room2 items "{}" "[Render, Frame 1016 {''d''}]"]
  have "myScore (run room2 (mount items) [Frame 1000 {}, Render, Frame 1016 {''d''}]) = 0 \<and>
        scoreUpdates (run room2 (mount items) [Frame 1000 {}, Render, Frame 1016 {''d''}]) = [] \<and>
        collectedValue (collectibles (updateGame 1000 {} (mount items))) = 500"
    by (simp only: pos position.simps centre_field(2,3,4) [OF init]) simp
  with init centre_field(1) [OF init] late pos show ?thesis
    by blast
qed

section \<open>Ranking\<close>

lemma mset_insertBy: "mset (insertBy cmp a xs) = add_mset a (mset xs)"
  by (induction xs) simp_all

lemma mset_sortBy: "mset (sortBy cmp xs) = mset xs"
  by (induction xs) (simp_all add: sortBy_def mset_insertBy)

lemma set_insertBy: "set (insertBy cmp a xs) = insert a (set xs)"
  by (induction xs) auto

lemma compareFn_le: "compareFn b a c \<le> 0 \<longleftrightarrow> scoreOf b c \<le> scoreOf b a"
  by (simp add: compareFn_def)

lemma sorted_insertBy:
  "sorted_wrt (\<lambda>a c. scoreOf b c \<le> scoreOf b a) xs \<Longrightarrow>
   sorted_wrt (\<lambda>a c. scoreOf b c \<le> scoreOf b a) (insertBy (compareFn b) a xs)"
proof (induction xs)
  case Nil
  show ?case by simp
next
  case (Cons c cs)
  show ?case
  proof (cases "compareFn b a c \<le> 0")
    case True
    then have "scoreOf b c \<le> scoreOf b a" by (simp add: compareFn_le)
    moreover from Cons.prems have "\<forall>x\<in>set cs. scoreOf b x \<le> scoreOf b c" by simp
    ultimately have "\<forall>x\<in>set (c # cs). scoreOf b x \<le> scoreOf b a" by auto
    with True Cons.prems show ?thesis by simp
  next
    case False
    then have "scoreOf b a \<le> scoreOf b c" by (simp add: compareFn_le)
    with False Cons show ?thesis by (auto simp: set_insertBy)
  qed
qed

lemma sorted_sortBy:
  "sorted_wrt (\<lambda>a c. scoreOf b c \<le> scoreOf b a) (sortBy (compareFn b) xs)"
  by (induction xs) (simp_all add: sortBy_def sorted_insertBy)

lemma filter_insertBy:
  "filter (\<lambda>x. scoreOf b x = k) (insertBy (compareFn b) a xs) =
     (if scoreOf b a = k then a # filter (\<lambda>x. scoreOf b x = k) xs
      else filter (\<lambda>x. scoreOf b x = k) xs)"
  by (induction xs) (auto simp: compareFn_le)

lemma stable_sortBy:
  "filter (\<lambda>x. scoreOf b x = k) (sortBy (compareFn b) xs) = filter (\<lambda>x. scoreOf b x = k) xs"
  by (induction xs) (simp_all add: sortBy_def filter_insertBy)

text \<open>
  A rearrangement that is ordered and keeps equal elements in their order is unique, so
  the model agrees with the library's stable sort on the negated score.
\<close>

lemma sortBy_sort_key:
  "sortBy (compareFn b) xs = sort_key (\<lambda>rp. - scoreOf b rp) xs"
proof (rule sym, rule properties_for_sort_key)
  show "mset (sortBy (compareFn b) xs) = mset xs"
    by (rule mset_sortBy)
next
  fix k
  have "filter (\<lambda>x. scoreOf b x = scoreOf b k) (sortBy (compareFn b) xs) =
        filter (\<lambda>x. scoreOf b x = scoreOf b k) xs"
    by (rule stable_sortBy)
  moreover have "(\<lambda>x. - scoreOf b k = - scoreOf b x) = (\<lambda>x. scoreOf b x = scoreOf b k)"
    by auto
  ultimately show "filter (\<lambda>x. - scoreOf b k = - scoreOf b x) (sortBy (compareFn b) xs) =
        filter (\<lambda>x. - scoreOf b k = - scoreOf b x) xs"
    by simp
next
  have "sorted_wrt (\<lambda>a c. scoreOf b c \<le> scoreOf b a) (sortBy (compareFn b) xs)"
    by (rule sorted_sortBy)
  then show "sorted (map (\<lambda>rp. - scoreOf b rp) (sortBy (compareFn b) xs))"
    by (simp add: sorted_map)
qed

lemma findIndex_takeWhile:
  "findIndex P xs =
     (if \<exists>x\<in>set xs. P x then int (length (takeWhile (\<lambda>x. \<not> P x) xs)) else - 1)"
  by (induction xs) (auto simp: Let_def)

lemma first_in_sorted:
  assumes "sorted_wrt (\<lambda>a c. key c \<le> key a) ys"
    and "\<forall>x. P x \<longrightarrow> key x = (m::int)"
    and "\<exists>x\<in>set ys. P x"
  shows "length (takeWhile (\<lambda>x. \<not> P x) ys) =
           length (filter (\<lambda>x. m < key x) ys) +
           length (takeWhile (\<lambda>x. \<not> P x) (filter (\<lambda>x. key x = m) ys))"
  using assms(1,3)
proof (induction ys)
  case Nil
  then show ?case by simp
next
  case (Cons y ys)
  show ?case
  proof (cases "P y")
    case True
    then have "key y = m" using assms(2) by simp
    with Cons.prems(1) have "\<forall>x\<in>set ys. \<not> m < key x" by auto
    then have "filter (\<lambda>x. m < key x) ys = []" by (simp add: filter_empty_conv)
    with True \<open>key y = m\<close> show ?thesis by simp
  next
    case False
    with Cons.prems(2) obtain x where x: "x \<in> set ys" "P x" by auto
    then have "key x = m" using assms(2) by simp
    with Cons.prems(1) x have ge: "m \<le> key y" by auto
    from Cons.prems(1) have sorted: "sorted_wrt (\<lambda>a c. key c \<le> key a) ys" by simp
    from x have ex: "\<exists>x\<in>set ys. P x" by blast
    from Cons.IH [OF sorted ex] False ge show ?thesis by auto
  qed
qed

lemma takeWhile_filter_key:
  assumes "\<forall>x. P x \<longrightarrow> key x = m"
  shows "takeWhile (\<lambda>x. \<not> P x) (filter (\<lambda>x. key x = m) xs) =
         filter (\<lambda>x. key x = m) (takeWhile (\<lambda>x. \<not> P x) xs)"
  using assms by (induction xs) auto

lemma isMe_scoreOf: "isMe b rp \<Longrightarrow> scoreOf b rp = b_myScore b"
  by (simp add: isMe_def scoreOf_def)

lemma length_filter_mset: "mset xs = mset ys \<Longrightarrow> length (filter P xs) = length (filter P ys)"
proof -
  assume "mset xs = mset ys"
  then have "filter_mset P (mset xs) = filter_mset P (mset ys)" by simp
  then have "mset (filter P xs) = mset (filter P ys)" by simp
  then show ?thesis by (rule mset_eq_length)
qed

lemma myRank_count:
  assumes "\<exists>rp\<in>set (b_roomPlayers b). isMe b rp"
  shows "myRank b =
     1 + int (length (filter (\<lambda>rp. b_myScore b < scoreOf b rp) (b_roomPlayers b)))
       + int (length (filter (\<lambda>rp. scoreOf b rp = b_myScore b)
                (takeWhile (\<lambda>rp. \<not> isMe b rp) (b_roomPlayers b))))"
proof -
  let ?xs = "b_roomPlayers b" and ?ys = "sortedPlayers b"
  have perm: "mset ?ys = mset ?xs"
    by (simp add: sortedPlayers_def mset_sortBy)
  then have "set ?ys = set ?xs" by (rule mset_eq_setD)
  with assms have ex: "\<exists>rp\<in>set ?ys. isMe b rp" by simp
  have key: "\<forall>rp. isMe b rp \<longrightarrow> scoreOf b rp = b_myScore b"
    by (simp add: isMe_scoreOf)
  have sorted: "sorted_wrt (\<lambda>a c. scoreOf b c \<le> scoreOf b a) ?ys"
    by (simp add: sortedPlayers_def sorted_sortBy)
  have "length (takeWhile (\<lambda>rp. \<not> isMe b rp) ?ys) =
      length (filter (\<lambda>rp. b_myScore b < scoreOf b rp) ?ys) +
      length (takeWhile (\<lambda>rp. \<not> isMe b rp) (filter (\<lambda>rp. scoreOf b rp = b_myScore b) ?ys))"
    using sorted key ex by (rule first_in_sorted)
  also have "length (filter (\<lambda>rp. b_myScore b < scoreOf b rp) ?ys) =
      length (filter (\<lambda>rp. b_myScore b < scoreOf b rp) ?xs)"
    using perm by (rule length_filter_mset)
  also have "filter (\<lambda>rp. scoreOf b rp = b_myScore b) ?ys =
      filter (\<lambda>rp. scoreOf b rp = b_myScore b) ?xs"
    by (simp add: sortedPlayers_def stable_sortBy)
  also have "takeWhile (\<lambda>rp. \<not> isMe b rp) (filter (\<lambda>rp. scoreOf b rp = b_myScore b) ?xs) =
      filter (\<lambda>rp. scoreOf b rp = b_myScore b) (takeWhile (\<lambda>rp. \<not> isMe b rp) ?xs)"
    using key by (rule takeWhile_filter_key)
  finally show ?thesis
    using ex by (simp add: myRank_def findIndex_takeWhile)
qed

lemma takeWhile_short: "\<exists>x\<in>set xs. \<not> P x \<Longrightarrow> length (takeWhile P xs) < length xs"
  by (induction xs) auto

lemma myRank_position:
  assumes "\<exists>rp\<in>set (b_roomPlayers b). isMe b rp"
  shows "1 \<le> myRank b \<and> myRank b \<le> int (length (b_roomPlayers b)) \<and>
         isMe b (sortedPlayers b ! nat (myRank b - 1)) \<and>
         (\<forall>j. j < nat (myRank b - 1) \<longrightarrow> \<not> isMe b (sortedPlayers b ! j))"
proof -
  let ?ys = "sortedPlayers b"
  let ?n = "length (takeWhile (\<lambda>rp. \<not> isMe b rp) ?ys)"
  have perm: "mset ?ys = mset (b_roomPlayers b)"
    by (simp add: sortedPlayers_def mset_sortBy)
  then have "set ?ys = set (b_roomPlayers b)" by (rule mset_eq_setD)
  with assms have ex: "\<exists>rp\<in>set ?ys. \<not> \<not> isMe b rp" by simp
  then have lt: "?n < length ?ys" by (rule takeWhile_short)
  have len: "length ?ys = length (b_roomPlayers b)"
    using perm by (rule mset_eq_length)
  have rank: "myRank b = int ?n + 1"
    using ex by (simp add: myRank_def findIndex_takeWhile)
  have here: "isMe b (?ys ! ?n)"
    using nth_length_takeWhile [OF lt] by simp
  have before: "\<not> isMe b (?ys ! j)" if "j < ?n" for j
  proof -
    from that have "takeWhile (\<lambda>rp. \<not> isMe b rp) ?ys ! j = ?ys ! j"
      by (rule takeWhile_nth)
    moreover from that have "takeWhile (\<lambda>rp. \<not> isMe b rp) ?ys ! j
        \<in> set (takeWhile (\<lambda>rp. \<not> isMe b rp) ?ys)"
      by simp
    ultimately show ?thesis by (auto dest: set_takeWhileD)
  qed
  from rank lt len here before show ?thesis by simp
qed

text \<open>
  What the ranking in \<^verbatim>\<open>endGame\<close> computes from the bindings it reads: the stable sort
  of their participant list by descending score, with their \<^verbatim>\<open>myScore\<close> for the local
  participant; the rank is the 1-based position of the local player's first entry, one
  more than the number of participants with a higher score plus the number with an equal
  score listed earlier.
\<close>

lemma ranking_of_bindings:
  "sortedPlayers b = sort_key (\<lambda>rp. - scoreOf b rp) (b_roomPlayers b) \<and>
   mset (sortedPlayers b) = mset (b_roomPlayers b) \<and>
   sorted_wrt (\<lambda>a c. scoreOf b c \<le> scoreOf b a) (sortedPlayers b) \<and>
   (\<forall>k. filter (\<lambda>rp. scoreOf b rp = k) (sortedPlayers b) =
        filter (\<lambda>rp. scoreOf b rp = k) (b_roomPlayers b)) \<and>
   (\<forall>rp. scoreOf b rp = (if isMe b rp then b_myScore b else score rp)) \<and>
   ((\<exists>rp\<in>set (b_roomPlayers b). isMe b rp) \<longrightarrow>
      1 \<le> myRank b \<and> myRank b \<le> int (length (b_roomPlayers b)) \<and>
      isMe b (sortedPlayers b ! nat (myRank b - 1)) \<and>
      (\<forall>j. j < nat (myRank b - 1) \<longrightarrow> \<not> isMe b (sortedPlayers b ! j)) \<and>
      myRank b =
        1 + int (length (filter (\<lambda>rp. b_myScore b < scoreOf b rp) (b_roomPlayers b)))
          + int (length (filter (\<lambda>rp. scoreOf b rp = b_myScore b)
                   (takeWhile (\<lambda>rp. \<not> isMe b rp) (b_roomPlayers b)))))"
proof -
  have "sortedPlayers b = sort_key (\<lambda>rp. - scoreOf b rp) (b_roomPlayers b)"
    by (simp add: sortedPlayers_def sortBy_sort_key)
  moreover have "mset (sortedPlayers b) = mset (b_roomPlayers b)"
    by (simp add: sortedPlayers_def mset_sortBy)
  moreover have "sorted_wrt (\<lambda>a c. scoreOf b c \<le> scoreOf b a) (sortedPlayers b)"
    by (simp add: sortedPlayers_def sorted_sortBy)
  moreover have "\<forall>k. filter (\<lambda>rp. scoreOf b rp = k) (sortedPlayers b) =
      filter (\<lambda>rp. scoreOf b rp = k) (b_roomPlayers b)"
    by (simp add: sortedPlayers_def stable_sortBy)
  moreover have "\<forall>rp. scoreOf b rp = (if isMe b rp then b_myScore b else score rp)"
    by (simp add: scoreOf_def isMe_def)
  ultimately show ?thesis
    using myRank_position [of b] myRank_count [of b] by blast
qed

lemmas rank_eval =
  sortedPlayers_def sortBy_def compareFn_def scoreOf_def isMe_def myRank_def seat_def alice_def



section \<open>Statistics update\<close>

text \<open>
  The player update that \<^verbatim>\<open>endGame\<close> writes, in terms of the bindings it reads.
\<close>

lemma playerUpdate_eq:
  "playerUpdate b =
     \<lparr> ps_total_score = total_score (b_player b) + b_myScore b,
       ps_games_played = games_played (b_player b) + 1,
       ps_wins = wins (b_player b) + (if myRank b = 1 then 1 else 0) \<rparr>"
  by (simp add: playerUpdate_def Let_def)

lemma applyWrites_endGame:
  "p_id row = p_id (b_player b) \<Longrightarrow>
   applyWrites (endGame b) row =
     row\<lparr> total_score := total_score (b_player b) + b_myScore b,
          games_played := games_played (b_player b) + 1,
          wins := wins (b_player b) + (if myRank b = 1 then 1 else 0) \<rparr>"
  by (simp add: endGame_def playerUpdate_eq)

text \<open>
  Claim C8 asks that finalization raise the stored total by the session score, the games
  played by 1 and the wins by 1 exactly when the rank is 1, and that no statistic ever go
  down. \<^verbatim>\<open>endGame\<close> writes absolute values, computed from the \<^verbatim>\<open>player\<close> prop and the
  \<^verbatim>\<open>myScore\<close> of the first render. The prop is the snapshot that \<^verbatim>\<open>usePlayer\<close> took when
  the player was loaded or created; nothing refreshes it after a game. So whatever the
  stored row holds, after finalization it holds the snapshot's total (plus the first
  render's score, 0), the snapshot's games played plus 1 and the snapshot's wins, plus 1
  when the rank is 1: a second game in the same page session leaves the games played
  where the first one put them and can lower the wins.
\<close>

theorem finalization_writes_from_snapshot:
  fixes roomId :: string and player :: player and roomPlayers :: "room_player list"
    and gameType :: string
  assumes "p_id row = p_id player"
  defines "b0 \<equiv> firstRender roomId player roomPlayers gameType"
  shows "set (endGameCalls (run b0 (mount items) es)) \<subseteq> {endGame b0} \<and>
         applyWrites (endGame b0) row =
           row\<lparr> total_score := total_score player,
                games_played := games_played player + 1,
                wins := (if myRank b0 = 1 then wins player + 1 else wins player) \<rparr>"
proof -
  have "set (endGameCalls (run b0 (mount items) es)) \<subseteq> {endGame b0}"
    by (rule endGame_reads_fixed_bindings)
  moreover have "p_id row = p_id (b_player b0)"
    using assms(1) by (simp add: b0_def firstRender_def)
  then have "applyWrites (endGame b0) row =
      row\<lparr> total_score := total_score (b_player b0) + b_myScore b0,
           games_played := games_played (b_player b0) + 1,
           wins := wins (b_player b0) + (if myRank b0 = 1 then 1 else 0) \<rparr>"
    by (rule applyWrites_endGame)
  then have "applyWrites (endGame b0) row =
      row\<lparr> total_score := total_score player,
           games_played := games_played player + 1,
           wins := (if myRank b0 = 1 then wins player + 1 else wins player) \<rparr>"
    by (simp add: b0_def firstRender_def)
  ultimately show ?thesis by simp
qed

text \<open>
  Alice (total 120, 3 games, 1 win) plays two games without reloading the page. In the
  first she is listed first and ranked 1: the row gets 4 games and 2 wins. In the second
  she is listed second and ranked 2: the row gets 4 games again and 1 win.
\<close>

theorem finalization_writes_from_snapshot_witness:
  "p_id alice = p_id alice \<and>
   applyWrites (endGame (firstRender ''room1'' alice [seat ''alice'' 0, seat ''bob'' 0] ''collector''))
      alice
     = alice\<lparr>games_played := 4, wins := 2\<rparr> \<and>
   p_id (alice\<lparr>games_played := 4, wins := 2\<rparr>) = p_id alice \<and>
   applyWrites (endGame (firstRender ''room2'' alice [seat ''bob'' 0, seat ''alice'' 0] ''collector''))
      (alice\<lparr>games_played := 4, wins := 2\<rparr>)
     = alice\<lparr>games_played := 4, wins := 1\<rparr>"
proof -
  have id1: "p_id alice = p_id alice"
    by simp
  have id2: "p_id (alice\<lparr>games_played := 4, wins := 2\<rparr>) = p_id alice"
    by simp
  have rank1: "myRank (firstRender ''room1'' alice [seat ''alice'' 0, seat ''bob'' 0] ''collector'') = 1"
    by (simp add: firstRender_def rank_eval)
  have rank2: "myRank (firstRender ''room2'' alice [seat ''bob'' 0, seat ''alice'' 0] ''collector'') = 2"
    by (simp add: firstRender_def rank_eval)
  have snapshot: "total_score alice = 120" "games_played alice = 3" "wins alice = 1"
    by (simp_all add: alice_def)
  from finalization_writes_from_snapshot [OF id1, of "''room1''" "[seat ''alice'' 0, seat ''bob'' 0]"
      "''collector''" "[]" "[]"]
  have first: "applyWrites
      (endGame (firstRender ''room1'' alice [seat ''alice'' 0, seat ''bob'' 0] ''collector'')) alice
     = alice\<lparr>games_played := 4, wins := 2\<rparr>"
    by (simp only: rank1 snapshot) (simp add: alice_def)
  from finalization_writes_from_snapshot [OF id2, of "''room2''" "[seat ''bob'' 0, seat ''alice'' 0]"
      "''collector''" "[]" "[]"]
  have second: "applyWrites
      (endGame (firstRender ''room2'' alice [seat ''bob'' 0, seat ''alice'' 0] ''collector''))
      (alice\<lparr>games_played := 4, wins := 2\<rparr>)
     = alice\<lparr>games_played := 4, wins := 1\<rparr>"
    by (simp only: rank2 snapshot) (simp add: alice_def)
  from id1 first id2 second show ?thesis
    by (simp only:)
qed

end
